theory Spec2Isabelle
  imports Main "HOL-Library.Word"
begin

unbundle bit_operations_syntax

section \<open>Strings, buffers and the file system\<close>

text \<open>
  The program is \<^verbatim>\<open>template2slide/scripts/generate_from_json.js\<close>. A JavaScript string is
  modelled as a \<^typ>\<open>string\<close> whose characters are the code units U+0000 to U+00FF; a Node
  \<^verbatim>\<open>Buffer\<close> is a list of bytes; the file system is a partial map from paths to file
  contents.
\<close>

type_synonym byte = "8 word"

type_synonym files = "string \<rightharpoonup> byte list"

text \<open>\<^verbatim>\<open>s.startsWith(p)\<close> and \<^verbatim>\<open>s.includes(p)\<close>, on strings and on decoded buffers alike.\<close>

definition startsWith :: "'a list \<Rightarrow> 'a list \<Rightarrow> bool" where
  "startsWith s p = (take (length p) s = p)"

fun includesSub :: "'a list \<Rightarrow> 'a list \<Rightarrow> bool" where
  "includesSub [] p = (p = [])"
| "includesSub (c # cs) p = (startsWith (c # cs) p \<or> includesSub cs p)"

text \<open>
  \<^verbatim>\<open>String.prototype.trim\<close> and the regular expression class \<^verbatim>\<open>\s\<close> take the same code
  units for white space; below U+0100 these are tab, line feed, vertical tab, form feed,
  carriage return, space and the no-break space.
\<close>

definition isSpace :: "char \<Rightarrow> bool" where
  "isSpace c = (c \<in> set [CHR 0x09, CHR 0x0A, CHR 0x0B, CHR 0x0C, CHR 0x0D, CHR 0x20, CHR 0xA0])"

definition trim :: "string \<Rightarrow> string" where
  "trim s = rev (dropWhile isSpace (rev (dropWhile isSpace s)))"

text \<open>
  \<^verbatim>\<open>toLowerCase\<close> below U+0100: the ASCII capitals and the Latin-1 capitals U+00C0 to
  U+00DE (without the multiplication sign U+00D7) move up by 32.
\<close>

definition toLowerChar :: "char \<Rightarrow> char" where
  "toLowerChar c =
     (let n = (of_char c :: nat) in
      if (65 \<le> n \<and> n \<le> 90) \<or> (192 \<le> n \<and> n \<le> 222 \<and> n \<noteq> 215)
      then char_of (n + 32) else c)"

definition toLowerCase :: "string \<Rightarrow> string" where
  "toLowerCase s = map toLowerChar s"

section \<open>FileTypeValidator: \<^verbatim>\<open>validateFileType\<close>\<close>

text \<open>
  \<^verbatim>\<open>buffer.toString('utf-8', 0, Math.min(100, buffer.length)).toLowerCase()\<close> is only searched
  for the ASCII patterns \<^verbatim>\<open><!doctype\<close> and \<^verbatim>\<open><html\<close>. The UTF-8 decoder maps every byte
  below 0x80 to the character with that code and every other byte sequence to characters
  outside ASCII, and no character outside ASCII lower-cases to a letter of the two patterns,
  so the search is modelled on the bytes, with the ASCII capitals lower-cased.
\<close>

definition lowerByte :: "byte \<Rightarrow> byte" where
  "lowerByte b = (if 0x41 \<le> b \<and> b \<le> 0x5A then b + 0x20 else b)"

definition asciiBytes :: "string \<Rightarrow> byte list" where
  "asciiBytes s = map of_char s"

definition prefixText :: "byte list \<Rightarrow> byte list" where
  "prefixText buffer = map lowerByte (take (min 100 (length buffer)) buffer)"

text \<open>
  The part of \<^verbatim>\<open>validateFileType\<close> after the buffer has been read (lines 79 to 115).
  \<^verbatim>\<open>buffer[i]\<close> is only read at an index below \<^verbatim>\<open>buffer.length\<close>: the caller has checked
  \<^verbatim>\<open>stats.size >= 4\<close>, and bytes 4 to 7 are read behind \<^verbatim>\<open>buffer.length >= 8\<close>.
\<close>

definition checkMagic :: "byte list \<Rightarrow> string \<Rightarrow> bool" where
  "checkMagic buffer expectedType =
     (if expectedType = ''video'' then
        (if buffer ! 0 = 0x89 \<and> buffer ! 1 = 0x50 \<and> buffer ! 2 = 0x4E \<and> buffer ! 3 = 0x47
         then False
         else
           (let text = prefixText buffer in
            if includesSub text (asciiBytes ''<!doctype'') \<or> includesSub text (asciiBytes ''<html'')
            then False
            else if length buffer \<ge> 8 \<and> buffer ! 4 = 0x66 \<and> buffer ! 5 = 0x74
                      \<and> buffer ! 6 = 0x79 \<and> buffer ! 7 = 0x70
            then True
            else False))
      else if expectedType = ''image'' then
        (let isPng = (buffer ! 0 = 0x89 \<and> buffer ! 1 = 0x50 \<and> buffer ! 2 = 0x4E \<and> buffer ! 3 = 0x47);
             isJpeg = (buffer ! 0 = 0xFF \<and> buffer ! 1 = 0xD8 \<and> buffer ! 2 = 0xFF);
             isGif = (buffer ! 0 = 0x47 \<and> buffer ! 1 = 0x49 \<and> buffer ! 2 = 0x46 \<and> buffer ! 3 = 0x38)
         in if isPng \<or> isJpeg \<or> isGif then True else False)
      else True)"

text \<open>
  \<^verbatim>\<open>validateFileType(filePath, expectedType)\<close>. \<^verbatim>\<open>fs.promises.stat\<close> throws for a path
  that names no file, and the \<^verbatim>\<open>catch\<close> returns \<^verbatim>\<open>false\<close>. \<^verbatim>\<open>fs.promises.readFile\<close>
  takes no \<^verbatim>\<open>start\<close>/\<^verbatim>\<open>end\<close> option, so \<^verbatim>\<open>buffer\<close> is the whole file; lemma
  \<open>checkMagic_prefix\<close> below shows that the answer is the same when only the bytes
  \<^verbatim>\<open>0 .. Math.min(100, stats.size - 1)\<close> are read.
\<close>

definition validateFileType :: "files \<Rightarrow> string \<Rightarrow> string \<Rightarrow> bool" where
  "validateFileType fsys filePath expectedType =
     (case fsys filePath of
        None \<Rightarrow> False
      | Some contents \<Rightarrow>
          if length contents < 4 then False
          else checkMagic contents expectedType)"

text \<open>The properties of a file that the validator's contract speaks about.\<close>

definition pngSignature :: "byte list" where
  "pngSignature = [0x89, 0x50, 0x4E, 0x47]"

definition ftypMarker :: "byte list" where
  "ftypMarker = [0x66, 0x74, 0x79, 0x70]"

definition isHtmlPrefix :: "byte list \<Rightarrow> bool" where
  "isHtmlPrefix contents =
     (includesSub (prefixText contents) (asciiBytes ''<!doctype'')
      \<or> includesSub (prefixText contents) (asciiBytes ''<html''))"

section \<open>ContentAggregator: \<^verbatim>\<open>aggregateSlides\<close>\<close>

subsection \<open>String operations of the aggregator\<close>

text \<open>\<^verbatim>\<open>parts.join(' ')\<close>.\<close>

fun joinSpace :: "string list \<Rightarrow> string" where
  "joinSpace [] = []"
| "joinSpace [x] = x"
| "joinSpace (x # y # ys) = x @ '' '' @ joinSpace (y # ys)"

text \<open>\<^verbatim>\<open>s.replace(/\s+/g, '_')\<close>: every maximal run of white space becomes one underscore.\<close>

function replaceSpaces :: "string \<Rightarrow> string" where
  "replaceSpaces [] = []"
| "replaceSpaces (c # cs) =
     (if isSpace c then CHR ''_'' # replaceSpaces (dropWhile isSpace cs)
      else c # replaceSpaces cs)"
  by pat_completeness auto
termination
  by (relation "measure length") (auto simp: length_dropWhile_le less_Suc_eq_le)

text \<open>
  \<^verbatim>\<open>text.match(/^power\s*:\s*standard/i)\<close>, where \<^verbatim>\<open>text\<close> has been lower-cased already, so
  that the flag \<^verbatim>\<open>i\<close> changes nothing. Neither \<^verbatim>\<open>:\<close> nor \<^verbatim>\<open>s\<close> is white space, so each
  \<^verbatim>\<open>\s*\<close> takes exactly the white space in front of it.
\<close>

definition matchPowerStandard :: "string \<Rightarrow> bool" where
  "matchPowerStandard t =
     (startsWith t ''power'' \<and>
      (let r = dropWhile isSpace (drop 5 t) in
       startsWith r '':'' \<and> startsWith (dropWhile isSpace (drop 1 r)) ''standard''))"

subsection \<open>Slides\<close>

text \<open>
  A content block \<^verbatim>\<open>{ level, text }\<close> and a slide descriptor. A field that may be absent is an
  option. The fields that \<^verbatim>\<open>aggregateSlides\<close> neither reads nor writes are the extension of
  the record, which the object spread \<^verbatim>\<open>{...s, title: ...}\<close> copies unchanged; \<^verbatim>\<open>group\<close> is
  the field \<^verbatim>\<open>_group\<close>.
\<close>

record item =
  level :: "int option"
  itemText :: "string option"

record slide =
  type :: "string option"
  title :: "string option"
  content :: "item list option"
  group :: "string option"

definition MAX_ITEMS_PER_SLIDE :: nat where
  "MAX_ITEMS_PER_SLIDE = 10"

definition baseTitle :: string where
  "baseTitle = ''System Requirements''"

definition sectionNames :: "string list" where
  "sectionNames = [''Network'', ''Camera'', ''AI Training'', ''AI Inference'', ''Dashboard'']"

text \<open>The test of lines 787 to 788 and 795 to 797: a slide of the target category.\<close>

definition isSystemRequirements :: "'a slide_scheme \<Rightarrow> bool" where
  "isSystemRequirements sl =
     (type sl = Some ''content_bullets'' \<and>
      (case title sl of
         None \<Rightarrow> False
       | Some t \<Rightarrow> t \<noteq> [] \<and> (startsWith t ''System Requirements:'' \<or> t = ''System Requirements'')))"

text \<open>\<^verbatim>\<open>s.content || []\<close> and \<^verbatim>\<open>c.text || ''\<close>.\<close>

definition contentOf :: "'a slide_scheme \<Rightarrow> item list" where
  "contentOf sl = (case content sl of None \<Rightarrow> [] | Some cs \<Rightarrow> cs)"

definition textOf :: "item \<Rightarrow> string" where
  "textOf it = (case itemText it of None \<Rightarrow> [] | Some t \<Rightarrow> t)"

text \<open>The callback of \<^verbatim>\<open>systemReqSlides.filter\<close> (lines 806 to 814).\<close>

definition slideText :: "'a slide_scheme \<Rightarrow> string" where
  "slideText sl = toLowerCase (joinSpace (map textOf (contentOf sl)))"

definition isNonTrivial :: "'a slide_scheme \<Rightarrow> bool" where
  "isNonTrivial sl =
     (\<not> includesSub (slideText sl) ''none required'' \<and>
      \<not> includesSub (slideText sl) ''standard source'' \<and>
      \<not> matchPowerStandard (slideText sl) \<and>
      length (contentOf sl) > 2)"

text \<open>The callback of \<^verbatim>\<open>content.forEach\<close> (lines 828 to 835), with its running index.\<close>

fun sectionBoundariesFrom :: "nat \<Rightarrow> item list \<Rightarrow> (nat \<times> string) list" where
  "sectionBoundariesFrom idx [] = []"
| "sectionBoundariesFrom idx (it # rest) =
     (let t = trim (textOf it) in
      if level it = Some 0 \<and> \<not> includesSub t '':'' \<and> t \<in> set sectionNames
      then (idx, t) # sectionBoundariesFrom (Suc idx) rest
      else sectionBoundariesFrom (Suc idx) rest)"

definition sectionBoundaries :: "item list \<Rightarrow> (nat \<times> string) list" where
  "sectionBoundaries cs = sectionBoundariesFrom 0 cs"

text \<open>\<^verbatim>\<open>content.slice(startIdx, endIdx)\<close> for indices that are not negative.\<close>

definition slice :: "'a list \<Rightarrow> nat \<Rightarrow> nat \<Rightarrow> 'a list" where
  "slice xs startIdx endIdx = take (endIdx - startIdx) (drop startIdx xs)"

definition groupName :: "string \<Rightarrow> string" where
  "groupName sectionName = replaceSpaces (toLowerCase sectionName)"

text \<open>
  The body of \<^verbatim>\<open>nonTrivialSlides.forEach\<close> (lines 823 to 881): the slides it pushes are
  appended to \<^verbatim>\<open>aggregated\<close>. \<^verbatim>\<open>sectionSlide\<close> is one round of the loop over \<^verbatim>\<open>secIdx\<close>.
\<close>

definition sectionSlide ::
  "'a slide_scheme \<Rightarrow> item list \<Rightarrow> (nat \<times> string) list \<Rightarrow> nat \<Rightarrow> 'a slide_scheme" where
  "sectionSlide sl cs bounds secIdx =
     (let startIdx = fst (bounds ! secIdx);
          endIdx = (if secIdx < length bounds - 1 then fst (bounds ! (secIdx + 1)) else length cs);
          sectionContent = slice cs startIdx endIdx;
          sectionName = snd (bounds ! secIdx)
      in sl\<lparr>title := Some (baseTitle @ '': '' @ sectionName),
             content := Some sectionContent,
             group := Some (groupName sectionName)\<rparr>)"

definition processSlide :: "'a slide_scheme list \<Rightarrow> 'a slide_scheme \<Rightarrow> 'a slide_scheme list" where
  "processSlide aggregated sl =
     (let cs = contentOf sl;
          bounds = sectionBoundaries cs
      in
      if length bounds > 1 \<and> length cs > MAX_ITEMS_PER_SLIDE then
        aggregated @ map (sectionSlide sl cs bounds) [0 ..< length bounds]
      else if length cs > MAX_ITEMS_PER_SLIDE \<and> length bounds = 1 then
        (let sectionName = snd (bounds ! 0);
             midPoint = (length cs + 1) div 2
         in aggregated @
            [sl\<lparr>title := Some (if sectionName \<noteq> [] then baseTitle @ '': '' @ sectionName @ '' (1/2)''
                                else baseTitle @ '' (1/2)''),
                 content := Some (slice cs 0 midPoint),
                 group := Some ''split_1''\<rparr>,
             sl\<lparr>title := Some (if sectionName \<noteq> [] then baseTitle @ '': '' @ sectionName @ '' (2/2)''
                                else baseTitle @ '' (2/2)''),
                 content := Some (slice cs midPoint (length cs)),
                 group := Some ''split_2''\<rparr>])
      else
        (let sectionName = (if length bounds = 1 then snd (bounds ! 0) else [])
         in aggregated @
            [sl\<lparr>title := Some (if sectionName \<noteq> [] then baseTitle @ '': '' @ sectionName else baseTitle),
                 group := Some (if sectionName \<noteq> [] then groupName sectionName else ''general'')\<rparr>]))"

text \<open>The inner \<^verbatim>\<open>while (i + 1 < slides.length)\<close> loop (lines 793 to 803).\<close>

function collectLoop ::
  "'a slide_scheme list \<Rightarrow> nat \<Rightarrow> 'a slide_scheme list \<Rightarrow> nat \<times> 'a slide_scheme list" where
  "collectLoop slides i systemReqSlides =
     (if i + 1 < length slides then
        (let nextSlide = slides ! (i + 1) in
         if isSystemRequirements nextSlide
         then collectLoop slides (i + 1) (systemReqSlides @ [nextSlide])
         else (i, systemReqSlides))
      else (i, systemReqSlides))"
  by pat_completeness auto
termination
  by (relation "measure (\<lambda>(slides, i, acc). length slides - i)") auto

declare collectLoop.simps [simp del]

lemma collectLoop_grows: "i \<le> fst (collectLoop slides i acc)"
proof (induction slides i acc rule: collectLoop.induct)
  case (1 slides i acc)
  show ?case
    using "1.IH" by (subst collectLoop.simps) (auto simp: Let_def dest: Suc_leD)
qed

lemma collectLoop_measure:
  assumes "(j, ys) = collectLoop slides i acc" and "i < length slides"
  shows "length slides - Suc j < length slides - i"
proof -
  have "i \<le> j" using collectLoop_grows [of i slides acc] assms(1) by (metis fst_conv)
  with assms(2) show ?thesis by simp
qed

text \<open>
  The outer \<^verbatim>\<open>while (i < slides.length)\<close> loop (lines 783 to 981). The branch behind
  \<^verbatim>\<open>if (false && ...)\<close> (lines 888 to 976) is never taken, which leaves its \<^verbatim>\<open>else\<close>.
\<close>

function aggregateLoop ::
  "'a slide_scheme list \<Rightarrow> nat \<Rightarrow> 'a slide_scheme list \<Rightarrow> 'a slide_scheme list" where
  "aggregateLoop slides i aggregated =
     (if i < length slides then
        (let sl = slides ! i in
         if isSystemRequirements sl then
           (let (j, systemReqSlides) = collectLoop slides i [sl];
                nonTrivialSlides = filter isNonTrivial systemReqSlides
            in
            if length nonTrivialSlides = 0 then aggregateLoop slides (j + 1) aggregated
            else aggregateLoop slides (j + 1) (foldl processSlide aggregated nonTrivialSlides))
         else aggregateLoop slides (i + 1) (aggregated @ [sl]))
      else aggregated)"
  by pat_completeness auto

termination
  by (relation "measure (\<lambda>(slides, i, acc). length slides - i)")
     (auto elim: collectLoop_measure)

declare aggregateLoop.simps [simp del]

definition aggregateSlides :: "'a slide_scheme list \<Rightarrow> 'a slide_scheme list" where
  "aggregateSlides slides = aggregateLoop slides 0 []"

subsection \<open>The loop as a function of the remaining list\<close>

text \<open>
  A second view of the two nested loops, used in the proofs only: \<open>aggRun run rest\<close> reads the
  slides that are left, \<open>run\<close> being the target-category slides collected since the last
  slide of another kind. \<open>aggregateLoop_eq\<close> shows that the loops over the index compute it.
\<close>

fun aggRun :: "'a slide_scheme list \<Rightarrow> 'a slide_scheme list \<Rightarrow> 'a slide_scheme list" where
  "aggRun run [] = foldl processSlide [] (filter isNonTrivial run)"
| "aggRun run (sl # rest) =
     (if isSystemRequirements sl then aggRun (run @ [sl]) rest
      else foldl processSlide [] (filter isNonTrivial run) @ sl # aggRun [] rest)"

definition flushRun :: "'a slide_scheme list \<Rightarrow> 'a slide_scheme list" where
  "flushRun run = concat (map (processSlide []) (filter isNonTrivial run))"

text \<open>
  The two halves of the filter's test: the three phrases of lines 810 to 812, and the number
  of content blocks that line 813 compares with 2.
\<close>

definition matchesTrivialPhrasing :: "'a slide_scheme \<Rightarrow> bool" where
  "matchesTrivialPhrasing sl =
     (includesSub (slideText sl) ''none required'' \<or>
      includesSub (slideText sl) ''standard source'' \<or>
      matchPowerStandard (slideText sl))"

definition blockCount :: "'a slide_scheme \<Rightarrow> nat" where
  "blockCount sl = length (contentOf sl)"

text \<open>
  The blocks in front of the first section header of a slide that line 838 sends to the
  split by sections.
\<close>

definition leadingBlocks :: "'a slide_scheme \<Rightarrow> nat" where
  "leadingBlocks sl =
     (let cs = contentOf sl; bounds = sectionBoundaries cs in
      if length bounds > 1 \<and> length cs > MAX_ITEMS_PER_SLIDE then fst (bounds ! 0) else 0)"

section \<open>RemoteAssetFetcher\<close>

subsection \<open>Effects\<close>

text \<open>
  A thrown value (a rejected promise). What is thrown is never inspected by the program
  beyond its message, which is only logged.
\<close>

datatype exn = TooManyRedirects | HttpStatus nat | OtherError string

text \<open>
  The result of awaiting a promise: it fulfils with a value, it rejects, or it never
  settles. \<open>Hang\<close> is what a computation returns when its fuel runs out. \<open>Crashed\<close> is an
  exception thrown inside an event callback: no \<^verbatim>\<open>try\<close> of the program encloses it, no promise
  settles, and Node ends the process with an uncaught exception.
\<close>

datatype 'a outcome = Ret 'a | Threw exn | Hang | Crashed exn

text \<open>
  The state that the program changes: the files on disk, the number of calls made to the
  collaborators so far (the collaborators answer the \<open>n\<close>-th call, so that the same request
  may be answered differently each time), the URLs requested over HTTP and the commands run
  through \<^verbatim>\<open>execSync\<close>.
\<close>

record world =
  disk :: files
  clock :: nat
  requests :: "string list"
  commands :: "string list"

type_synonym 'a io = "world \<Rightarrow> 'a outcome \<times> world"

text \<open>The answer to an HTTP GET: no response at all (an \<^verbatim>\<open>error\<close> event or the 30 s
  time-out), or a response with its status code, \<^verbatim>\<open>Location\<close> header, \<^verbatim>\<open>Content-Type\<close>
  header and body.\<close>

datatype httpReply =
  NoResponse exn
| Response nat "string option" "string option" "byte list"

text \<open>A response of the browser's \<^verbatim>\<open>page.goto\<close>: its status and body.\<close>

type_synonym pageResponse = "nat \<times> byte list"

text \<open>
  The collaborators: the network, the WHATWG URL parser, the disk's failures, the headless
  browser (Playwright), the diagram engine (\<^verbatim>\<open>mmdc\<close>) and the rasteriser (\<^verbatim>\<open>sharp\<close>).
  The first argument of most of them is the clock.
\<close>

record env =
  httpGet :: "nat \<Rightarrow> string \<Rightarrow> httpReply"
  resolveUrl :: "string \<Rightarrow> string \<Rightarrow> string option"
  parseUrl :: "string \<Rightarrow> (string \<times> string option) option"
  writeFails :: "nat \<Rightarrow> string \<Rightarrow> bool"
  pwNewPage :: "nat \<Rightarrow> exn option"
  pwClose :: "nat \<Rightarrow> exn option"
  pwWaitDownload :: "nat \<Rightarrow> byte list option"
  pwRaceGoto :: "nat \<Rightarrow> string \<Rightarrow> exn option"
  pwGoto :: "nat \<Rightarrow> string \<Rightarrow> exn + pageResponse option"
  pwUrl :: "nat \<Rightarrow> string"
  pwQuery :: "nat \<Rightarrow> string \<Rightarrow> exn + bool"
  pwClick :: "nat \<Rightarrow> exn option"
  pwSaveAs :: "nat \<Rightarrow> exn option"
  mmdc :: "nat \<Rightarrow> string \<Rightarrow> exn + byte list"
  sharpPng :: "nat \<Rightarrow> string \<Rightarrow> exn + byte list"

definition ret :: "'a \<Rightarrow> 'a io" where
  "ret x w = (Ret x, w)"

definition throw :: "exn \<Rightarrow> 'a io" where
  "throw e w = (Threw e, w)"

definition crash :: "exn \<Rightarrow> 'a io" where
  "crash e w = (Crashed e, w)"

text \<open>\<^verbatim>\<open>const x = await m; k(x)\<close>.\<close>

definition bind :: "'a io \<Rightarrow> ('a \<Rightarrow> 'b io) \<Rightarrow> 'b io" where
  "bind m k w =
     (case m w of
        (Ret x, w') \<Rightarrow> k x w'
      | (Threw e, w') \<Rightarrow> (Threw e, w')
      | (Hang, w') \<Rightarrow> (Hang, w')
      | (Crashed e, w') \<Rightarrow> (Crashed e, w'))"

text \<open>\<^verbatim>\<open>try { m } catch (e) { h(e) }\<close>.\<close>

definition tryCatch :: "'a io \<Rightarrow> (exn \<Rightarrow> 'a io) \<Rightarrow> 'a io" where
  "tryCatch m h w =
     (case m w of
        (Threw e, w') \<Rightarrow> h e w'
      | r \<Rightarrow> r)"

text \<open>\<^verbatim>\<open>try { m } finally { await f }\<close>: \<open>f\<close> runs after \<open>m\<close> has returned or thrown, and
  what \<open>f\<close> throws replaces the result of \<open>m\<close>.\<close>

definition tryFinally :: "'a io \<Rightarrow> unit io \<Rightarrow> 'a io" where
  "tryFinally m f w =
     (case m w of
        (Hang, w') \<Rightarrow> (Hang, w')
      | (Crashed e, w') \<Rightarrow> (Crashed e, w')
      | (r, w') \<Rightarrow>
          (case f w' of
             (Ret u, w'') \<Rightarrow> (r, w'')
           | (Threw e, w'') \<Rightarrow> (Threw e, w'')
           | (Hang, w'') \<Rightarrow> (Hang, w'')
           | (Crashed e, w'') \<Rightarrow> (Crashed e, w'')))"

text \<open>A call to a collaborator: it reads the answer for the current clock and advances it.\<close>

definition tick :: "world \<Rightarrow> world" where
  "tick w = w\<lparr>clock := clock w + 1\<rparr>"

definition ask :: "(nat \<Rightarrow> 'a) \<Rightarrow> 'a io" where
  "ask f w = (Ret (f (clock w)), tick w)"

definition askE :: "(nat \<Rightarrow> exn + 'a) \<Rightarrow> 'a io" where
  "askE f w = (case f (clock w) of Inl e \<Rightarrow> (Threw e, tick w) | Inr x \<Rightarrow> (Ret x, tick w))"

definition askU :: "(nat \<Rightarrow> exn option) \<Rightarrow> unit io" where
  "askU f w = (case f (clock w) of Some e \<Rightarrow> (Threw e, tick w) | None \<Rightarrow> (Ret (), tick w))"

text \<open>An early \<^verbatim>\<open>return\<close> out of a block, or falling through to the statement after it.\<close>

datatype ('r, 'v) flow = Return 'r | Next 'v

definition andThen :: "('r, 'v) flow io \<Rightarrow> ('v \<Rightarrow> ('r, 'u) flow io) \<Rightarrow> ('r, 'u) flow io" where
  "andThen m k = bind m (\<lambda>r. case r of Return v \<Rightarrow> ret (Return v) | Next x \<Rightarrow> k x)"

text \<open>The value of a function whose body is \<open>m\<close> followed by \<^verbatim>\<open>return null\<close>.\<close>

definition orNull :: "('a option, 'v) flow io \<Rightarrow> 'a option io" where
  "orNull m = bind m (\<lambda>r. case r of Return v \<Rightarrow> ret v | Next x \<Rightarrow> ret None)"

subsection \<open>The file system calls\<close>

text \<open>\<^verbatim>\<open>(await fs.promises.stat(p)).size\<close>: throws when no file is at \<open>p\<close>.\<close>

definition statSize :: "string \<Rightarrow> nat io" where
  "statSize p w =
     (case disk w p of
        None \<Rightarrow> (Threw (OtherError ''ENOENT''), w)
      | Some contents \<Rightarrow> (Ret (length contents), w))"

text \<open>\<^verbatim>\<open>await fs.promises.unlink(p).catch(() => {})\<close>.\<close>

definition unlinkQuiet :: "string \<Rightarrow> unit io" where
  "unlinkQuiet p w = (Ret (), w\<lparr>disk := (disk w)(p := None)\<rparr>)"

text \<open>\<^verbatim>\<open>await fs.promises.unlink(p)\<close>.\<close>

definition unlink :: "string \<Rightarrow> unit io" where
  "unlink p w =
     (case disk w p of
        None \<Rightarrow> (Threw (OtherError ''ENOENT''), w)
      | Some contents \<Rightarrow> (Ret (), w\<lparr>disk := (disk w)(p := None)\<rparr>))"

text \<open>\<^verbatim>\<open>await fs.promises.writeFile(p, contents)\<close>.\<close>

definition writeFile :: "env \<Rightarrow> string \<Rightarrow> byte list \<Rightarrow> unit io" where
  "writeFile E p contents w =
     (if writeFails E (clock w) p then (Threw (OtherError ''write failed''), tick w)
      else (Ret (), (tick w)\<lparr>disk := (disk w)(p \<mapsto> contents)\<rparr>))"

text \<open>\<^verbatim>\<open>await validateFileType(p, isVideo ? 'video' : 'image')\<close>.\<close>

definition kindOf :: "bool \<Rightarrow> string" where
  "kindOf isVideo = (if isVideo then ''video'' else ''image'')"

definition validate :: "string \<Rightarrow> bool \<Rightarrow> bool io" where
  "validate p isVideo w = (Ret (validateFileType (disk w) p (kindOf isVideo)), w)"


subsection \<open>Direct retrieval: \<^verbatim>\<open>downloadFileDirect\<close> and \<^verbatim>\<open>fetchResponse\<close>\<close>

text \<open>\<^verbatim>\<open>protocol.get(url, options, callback)\<close>: one request, logged.\<close>

definition httpRequest :: "env \<Rightarrow> string \<Rightarrow> httpReply io" where
  "httpRequest E url w =
     (Ret (httpGet E (clock w) url), (tick w)\<lparr>requests := requests w @ [url]\<rparr>)"

text \<open>
  Lines 142 to 144 and 192 to 194: the URL that a redirect is retried on. A \<^verbatim>\<open>Location\<close>
  header that starts with \<^verbatim>\<open>http\<close> is taken as it is; any other is resolved against the URL
  of the request by \<^verbatim>\<open>new URL(location, url).href\<close>, which is \<open>resolveUrl E location url\<close>:
  \<open>None\<close> when the constructor throws (the header is not a valid URL reference). The
  statement stands in the response callback, which the request's event emitter runs, so
  what \<^verbatim>\<open>new URL\<close> throws there is not a rejection of the promise but an uncaught exception.
\<close>

definition redirectUrl :: "env \<Rightarrow> string \<Rightarrow> string \<Rightarrow> string io" where
  "redirectUrl E location url =
     (if startsWith location ''http'' then ret location
      else (case resolveUrl E location url of
              Some href \<Rightarrow> ret href
            | None \<Rightarrow> crash (OtherError ''Invalid URL'')))"

text \<open>
  Lines 156 to 167: the body is piped into a write stream on \<^verbatim>\<open>outputPath\<close>; when the stream
  fails, the file is unlinked and the promise rejects.
\<close>

definition pipeToFile :: "env \<Rightarrow> string \<Rightarrow> byte list \<Rightarrow> string io" where
  "pipeToFile E outputPath body w =
     (if writeFails E (clock w) outputPath
      then (Threw (OtherError ''write failed''), (tick w)\<lparr>disk := (disk w)(outputPath := None)\<rparr>)
      else (Ret outputPath, (tick w)\<lparr>disk := (disk w)(outputPath \<mapsto> body)\<rparr>))"

text \<open>Lines 151 to 167, reached by a response that is not followed as a redirect.\<close>

definition saveResponse :: "env \<Rightarrow> string \<Rightarrow> nat \<Rightarrow> byte list \<Rightarrow> string io" where
  "saveResponse E outputPath statusCode body =
     (if statusCode \<noteq> 200 then throw (HttpStatus statusCode)
      else pipeToFile E outputPath body)"

text \<open>
  \<^verbatim>\<open>downloadFileDirect(url, outputPath, followRedirects, maxRedirects)\<close>. The recursion is
  on \<^verbatim>\<open>maxRedirects\<close>, a natural number: \<^verbatim>\<open>maxRedirects <= 0\<close> is \<open>0\<close>.
\<close>

fun downloadFileDirect :: "env \<Rightarrow> string \<Rightarrow> string \<Rightarrow> bool \<Rightarrow> nat \<Rightarrow> string io" where
  "downloadFileDirect E url outputPath followRedirects 0 = throw TooManyRedirects"
| "downloadFileDirect E url outputPath followRedirects (Suc maxRedirects) =
     bind (httpRequest E url) (\<lambda>reply.
       case reply of
         NoResponse e \<Rightarrow> throw e
       | Response statusCode location contentType body \<Rightarrow>
           (case location of
              Some loc \<Rightarrow>
                if followRedirects \<and> 300 \<le> statusCode \<and> statusCode < 400 \<and> loc \<noteq> []
                then bind (redirectUrl E loc url) (\<lambda>target.
                       downloadFileDirect E target outputPath True maxRedirects)
                else saveResponse E outputPath statusCode body
            | None \<Rightarrow> saveResponse E outputPath statusCode body))"

text \<open>The default of the parameter \<^verbatim>\<open>maxRedirects\<close>; no caller passes another value.\<close>

definition defaultMaxRedirects :: nat where
  "defaultMaxRedirects = 5"

text \<open>
  \<^verbatim>\<open>fetchResponse(url)\<close> follows redirects with no budget. \<open>fuel\<close> is the number of requests
  that the model still looks at; with none left the promise has not settled (\<open>Hang\<close>).
\<close>

fun fetchResponse :: "env \<Rightarrow> nat \<Rightarrow> string \<Rightarrow> (string option \<times> byte list) io" where
  "fetchResponse E 0 url = (\<lambda>w. (Hang, w))"
| "fetchResponse E (Suc fuel) url =
     bind (httpRequest E url) (\<lambda>reply.
       case reply of
         NoResponse e \<Rightarrow> throw e
       | Response statusCode location contentType body \<Rightarrow>
           (case location of
              Some loc \<Rightarrow>
                if 300 \<le> statusCode \<and> statusCode < 400 \<and> loc \<noteq> []
                then bind (redirectUrl E loc url) (fetchResponse E fuel)
                else if statusCode \<noteq> 200 then throw (HttpStatus statusCode)
                else ret (contentType, body)
            | None \<Rightarrow>
                if statusCode \<noteq> 200 then throw (HttpStatus statusCode)
                else ret (contentType, body)))"

subsection \<open>Share links: \<^verbatim>\<open>extractGoogleDriveId\<close> and \<^verbatim>\<open>downloadGoogleDriveFile\<close>\<close>

text \<open>The class \<^verbatim>\<open>[a-zA-Z0-9_-]\<close>.\<close>

definition isIdChar :: "char \<Rightarrow> bool" where
  "isIdChar c =
     (let n = (of_char c :: nat) in
      (97 \<le> n \<and> n \<le> 122) \<or> (65 \<le> n \<and> n \<le> 90) \<or> (48 \<le> n \<and> n \<le> 57)
      \<or> c = CHR ''_'' \<or> c = CHR ''-'')"

definition isIdByte :: "byte \<Rightarrow> bool" where
  "isIdByte b =
     ((0x61 \<le> b \<and> b \<le> 0x7A) \<or> (0x41 \<le> b \<and> b \<le> 0x5A) \<or> (0x30 \<le> b \<and> b \<le> 0x39)
      \<or> b = 0x5F \<or> b = 0x2D)"

text \<open>
  \<^verbatim>\<open>s.match(/lit([cls]+)/)\<close> for a literal \<open>lit\<close> and a character class \<open>cls\<close>: the capture
  of the leftmost match, the class taken greedily.
\<close>

fun matchAfter :: "'a list \<Rightarrow> ('a \<Rightarrow> bool) \<Rightarrow> 'a list \<Rightarrow> 'a list option" where
  "matchAfter lit cls [] = None"
| "matchAfter lit cls (c # cs) =
     (if startsWith (c # cs) lit \<and> takeWhile cls (drop (length lit) (c # cs)) \<noteq> []
      then Some (takeWhile cls (drop (length lit) (c # cs)))
      else matchAfter lit cls cs)"

text \<open>
  \<^verbatim>\<open>extractGoogleDriveId(url)\<close>. \<open>parseUrl E url\<close> is \<^verbatim>\<open>new URL(url)\<close>: \<open>None\<close> when the
  constructor throws, else the \<^verbatim>\<open>pathname\<close> and \<^verbatim>\<open>searchParams.get('id')\<close>.
\<close>

definition extractGoogleDriveId :: "env \<Rightarrow> string \<Rightarrow> string option" where
  "extractGoogleDriveId E url =
     (if url = [] then None
      else
        (case matchAfter ''/file/d/'' isIdChar url of
           Some fileId \<Rightarrow> Some fileId
         | None \<Rightarrow>
             (case parseUrl E url of
                None \<Rightarrow> None
              | Some (pathname, idParam) \<Rightarrow>
                  if includesSub pathname ''open''
                  then (case idParam of
                          Some v \<Rightarrow> if v \<noteq> [] then Some v else None
                        | None \<Rightarrow> None)
                  else None)))"

definition getGoogleDriveDownloadUrl :: "string \<Rightarrow> string" where
  "getGoogleDriveDownloadUrl fileId = ''https://drive.google.com/uc?export=download&id='' @ fileId"

text \<open>
  The statement that follows every validation in the share-link code (lines 235 to 240, 267
  to 272, 287 to 292, 302 to 307, 395 to 400, 465 to 470):
  \<^verbatim>\<open>if (isValid) return outputPath; else { console.warn(...); await unlink(outputPath).catch(...) }\<close>.
\<close>

definition acceptOrDelete :: "string \<Rightarrow> bool \<Rightarrow> (string option, unit) flow io" where
  "acceptOrDelete outputPath isVideo =
     bind (validate outputPath isVideo) (\<lambda>isValid.
       if isValid then ret (Return (Some outputPath))
       else bind (unlinkQuiet outputPath) (\<lambda>u. ret (Next ())))"

text \<open>\<^verbatim>\<open>const stats = await stat(outputPath); if (stats.size > 1000) { ... }\<close>.\<close>

definition checkDownloaded :: "string \<Rightarrow> bool \<Rightarrow> (string option, unit) flow io" where
  "checkDownloaded outputPath isVideo =
     bind (statSize outputPath) (\<lambda>fileSize.
       if fileSize > 1000 then acceptOrDelete outputPath isVideo else ret (Next ()))"

text \<open>
  The three blocks of the same shape in \<^verbatim>\<open>downloadGoogleDriveFile\<close> (lines 228 to 244, 262
  to 276 and 281 to 296): \<^verbatim>\<open>try { await downloadFileDirect(u, outputPath, true); ... } catch (e) {}\<close>.
\<close>

definition directAttempt :: "env \<Rightarrow> string \<Rightarrow> string \<Rightarrow> bool \<Rightarrow> (string option, unit) flow io" where
  "directAttempt E u outputPath isVideo =
     tryCatch
       (bind (downloadFileDirect E u outputPath True defaultMaxRedirects) (\<lambda>p.
          checkDownloaded outputPath isVideo))
       (\<lambda>e. ret (Next ()))"

definition byteString :: "byte list \<Rightarrow> string" where
  "byteString bs = map (\<lambda>b. char_of (unat b)) bs"

text \<open>Lines 248 to 309: what follows \<^verbatim>\<open>fetchResponse\<close> inside the second \<^verbatim>\<open>try\<close>.\<close>

definition afterFetch ::
  "env \<Rightarrow> string \<Rightarrow> string \<Rightarrow> bool \<Rightarrow> string option \<times> byte list \<Rightarrow> (string option, unit) flow io" where
  "afterFetch E fileId outputPath isVideo response =
     (let contentType = toLowerCase (case fst response of None \<Rightarrow> [] | Some t \<Rightarrow> t);
          body = snd response
      in
      if includesSub contentType ''text/html''
         \<or> includesSub (prefixText body) (asciiBytes ''<!doctype'')
      then
        andThen
          (case matchAfter (asciiBytes ''confirm='') isIdByte body of
             Some confirmToken \<Rightarrow>
               directAttempt E
                 (''https://drive.google.com/uc?export=download&id='' @ fileId
                    @ ''&confirm='' @ byteString confirmToken)
                 outputPath isVideo
           | None \<Rightarrow> ret (Next ()))
          (\<lambda>u. directAttempt E
                 (''https://drive.google.com/uc?export=download&id='' @ fileId @ ''&confirm=t'')
                 outputPath isVideo)
      else if length body > 1000 then
        bind (writeFile E outputPath body) (\<lambda>u. acceptOrDelete outputPath isVideo)
      else ret (Next ()))"

text \<open>\<^verbatim>\<open>downloadGoogleDriveFile(fileId, outputPath, isVideo)\<close>.\<close>

definition downloadGoogleDriveFile ::
  "env \<Rightarrow> nat \<Rightarrow> string \<Rightarrow> string \<Rightarrow> bool \<Rightarrow> string option io" where
  "downloadGoogleDriveFile E fuel fileId outputPath isVideo =
     (let downloadUrl = ''https://drive.google.com/uc?export=download&id='' @ fileId
      in orNull
           (tryCatch
              (andThen (directAttempt E downloadUrl outputPath isVideo) (\<lambda>u.
                 tryCatch
                   (bind (fetchResponse E fuel downloadUrl)
                      (afterFetch E fileId outputPath isVideo))
                   (\<lambda>e. ret (Next ()))))
              (\<lambda>error. ret (Next ()))))"


subsection \<open>The browser fallback of \<^verbatim>\<open>downloadFile\<close>\<close>

text \<open>
  \<^verbatim>\<open>page.waitForTimeout\<close> only lets time pass and is left out. A promise made by
  \<^verbatim>\<open>page.waitForEvent('download', ...).catch(() => null)\<close> is asked for its value where it
  is awaited: \<open>None\<close> is \<^verbatim>\<open>null\<close>, \<open>Some contents\<close> a download with these contents.
\<close>

definition selectors :: "string list" where
  \<open>selectors =
     [''button#uc-download-link'',
      ''a#uc-download-link'',
      ''button[aria-label*="Download"]'',
      ''a[aria-label*="Download"]'',
      ''form[action*="download"] button'',
      ''form[action*="download"] input[type="submit"]'',
      ''input[type="submit"][value*="Download"]'']\<close>

text \<open>
  Lines 423 to 434, the body of the \<^verbatim>\<open>try\<close> of one round of the loop over the selectors:
  the download that clicking the element started, if any.
\<close>

definition clickSelector :: "env \<Rightarrow> string \<Rightarrow> byte list option io" where
  "clickSelector E selector =
     bind (askE (\<lambda>n. pwQuery E n selector)) (\<lambda>button.
       if button then
         bind (askU (pwClick E)) (\<lambda>u. ask (pwWaitDownload E))
       else ret None)"

text \<open>Lines 421 to 438: the loop stops at the first selector whose click starts a download.\<close>

fun clickSelectors :: "env \<Rightarrow> string list \<Rightarrow> byte list option io" where
  "clickSelectors E [] = ret None"
| "clickSelectors E (selector # rest) =
     bind (tryCatch (clickSelector E selector) (\<lambda>e. ret None)) (\<lambda>download.
       case download of
         Some d \<Rightarrow> ret (Some d)
       | None \<Rightarrow> clickSelectors E rest)"

text \<open>Lines 440 to 452: any button of the first form.\<close>

definition clickForm :: "env \<Rightarrow> byte list option io" where
  \<open>clickForm E =
     bind (askE (\<lambda>n. pwQuery E n ''form'')) (\<lambda>form.
       if form then
         bind (askE (\<lambda>n. pwQuery E n ''button, input[type="submit"]'')) (\<lambda>submitButton.
           if submitButton then
             bind (askU (pwClick E)) (\<lambda>u. ask (pwWaitDownload E))
           else ret None)
       else ret None)\<close>

text \<open>Lines 384 to 407: the page may already be the video file.\<close>

definition videoFromPage ::
  "env \<Rightarrow> string \<Rightarrow> string \<Rightarrow> bool \<Rightarrow> (string option, unit) flow io" where
  "videoFromPage E pageUrl outputPath isVideo =
     (if isVideo \<and> includesSub pageUrl ''googleusercontent'' then
        tryCatch
          (bind (askE (\<lambda>n. pwGoto E n pageUrl)) (\<lambda>response.
             case response of
               Some (status, buffer) \<Rightarrow>
                 if status = 200 \<and> length buffer > 1000 then
                   bind (writeFile E outputPath buffer) (\<lambda>u. checkDownloaded outputPath isVideo)
                 else ret (Next ())
             | None \<Rightarrow> ret (Next ())))
          (\<lambda>e. ret (Next ()))
      else ret (Next ()))"

text \<open>
  Lines 380 to 456: the confirmation page. Entered with \<^verbatim>\<open>download\<close> being \<^verbatim>\<open>null\<close>; the
  value of \<^verbatim>\<open>download\<close> afterwards is passed on. When the \<^verbatim>\<open>try\<close> throws, \<^verbatim>\<open>download\<close> is
  still \<^verbatim>\<open>null\<close>: it is assigned by the last statement of a round of the loop and by the
  last statement of the block only.
\<close>

definition confirmationPage ::
  "env \<Rightarrow> string \<Rightarrow> bool \<Rightarrow> (string option, byte list option) flow io" where
  "confirmationPage E outputPath isVideo =
     bind (ask (pwUrl E)) (\<lambda>pageUrl.
       if includesSub pageUrl ''confirm='' \<or> includesSub pageUrl ''virusScanWarning''
          \<or> includesSub pageUrl ''googleusercontent''
       then
         tryCatch
           (andThen (videoFromPage E pageUrl outputPath isVideo) (\<lambda>u.
              bind (clickSelectors E selectors) (\<lambda>download.
                case download of
                  Some d \<Rightarrow> ret (Next (Some d))
                | None \<Rightarrow> bind (clickForm E) (\<lambda>download'. ret (Next download')))))
           (\<lambda>e. ret (Next None))
       else ret (Next None))"

text \<open>\<^verbatim>\<open>await download.saveAs(outputPath)\<close>.\<close>

definition saveAs :: "env \<Rightarrow> string \<Rightarrow> byte list \<Rightarrow> unit io" where
  "saveAs E outputPath contents w =
     (case pwSaveAs E (clock w) of
        Some e \<Rightarrow> (Threw e, tick w)
      | None \<Rightarrow> (Ret (), (tick w)\<lparr>disk := (disk w)(outputPath \<mapsto> contents)\<rparr>))"

text \<open>Lines 459 to 472.\<close>

definition saveDownload ::
  "env \<Rightarrow> string \<Rightarrow> bool \<Rightarrow> byte list option \<Rightarrow> (string option, unit) flow io" where
  "saveDownload E outputPath isVideo download =
     (case download of
        Some contents \<Rightarrow>
          bind (saveAs E outputPath contents) (\<lambda>u.
            bind (tryCatch (bind (statSize outputPath) (\<lambda>fileSize. ret (Some fileSize))) (\<lambda>e. ret None))
              (\<lambda>stats.
                case stats of
                  Some fileSize \<Rightarrow> if fileSize > 0 then acceptOrDelete outputPath isVideo else ret (Next ())
                | None \<Rightarrow> ret (Next ())))
      | None \<Rightarrow> ret (Next ()))"

text \<open>Lines 355 to 472, the body of the \<^verbatim>\<open>try\<close> whose \<^verbatim>\<open>finally\<close> closes the page.\<close>

definition browserDownload ::
  "env \<Rightarrow> string \<Rightarrow> string \<Rightarrow> bool \<Rightarrow> (string option, unit) flow io" where
  "browserDownload E fileId outputPath isVideo =
     bind (askU (\<lambda>n. pwRaceGoto E n (getGoogleDriveDownloadUrl fileId))) (\<lambda>u.
     bind (ask (pwWaitDownload E)) (\<lambda>download0.
     bind (if isVideo \<and> download0 = None then ask (pwWaitDownload E) else ret download0) (\<lambda>download1.
     andThen
       (case download1 of
          None \<Rightarrow> confirmationPage E outputPath isVideo
        | Some d \<Rightarrow> ret (Next (Some d)))
       (saveDownload E outputPath isVideo))))"

subsection \<open>\<^verbatim>\<open>downloadFile\<close>\<close>

text \<open>Lines 338 to 350: the inline view endpoint, for images.\<close>

definition viewAttempt :: "env \<Rightarrow> string \<Rightarrow> string \<Rightarrow> (string option, unit) flow io" where
  "viewAttempt E fileId outputPath =
     tryCatch
       (bind (downloadFileDirect E (''https://drive.google.com/uc?export=view&id='' @ fileId)
                outputPath True defaultMaxRedirects) (\<lambda>p.
          bind (statSize outputPath) (\<lambda>fileSize.
            if fileSize > 1000 then ret (Return (Some outputPath))
            else bind (unlinkQuiet outputPath) (\<lambda>u. ret (Next ())))))
       (\<lambda>e. ret (Next ()))"

text \<open>Lines 329 to 475: a share link.\<close>

definition downloadShared ::
  "env \<Rightarrow> nat \<Rightarrow> string \<Rightarrow> string \<Rightarrow> bool \<Rightarrow> (string option, unit) flow io" where
  "downloadShared E fuel fileId outputPath isVideo =
     bind (downloadGoogleDriveFile E fuel fileId outputPath isVideo) (\<lambda>result.
       case (case result of Some p \<Rightarrow> if p \<noteq> [] then Some p else None | None \<Rightarrow> None) of
         Some p \<Rightarrow> ret (Return (Some p))
       | None \<Rightarrow>
           andThen (if \<not> isVideo then viewAttempt E fileId outputPath else ret (Next ())) (\<lambda>u.
             bind (askU (pwNewPage E)) (\<lambda>page.
               tryFinally (browserDownload E fileId outputPath isVideo) (askU (pwClose E)))))"

text \<open>Lines 477 to 505: any other URL.\<close>

definition downloadRegular ::
  "env \<Rightarrow> string \<Rightarrow> string \<Rightarrow> bool \<Rightarrow> (string option, unit) flow io" where
  "downloadRegular E url outputPath isVideo =
     tryCatch
       (bind (downloadFileDirect E url outputPath True defaultMaxRedirects) (\<lambda>p.
          bind (statSize outputPath) (\<lambda>fileSize.
            if fileSize > 0 then
              bind (validate outputPath isVideo) (\<lambda>isValid.
                if isValid then ret (Return (Some outputPath)) else ret (Next ()))
            else ret (Next ()))))
       (\<lambda>e.
          bind (askU (pwNewPage E)) (\<lambda>page.
            tryFinally
              (bind (askE (\<lambda>n. pwGoto E n url)) (\<lambda>response.
                 case response of
                   Some (status, buffer) \<Rightarrow>
                     if length buffer > 0 then
                       bind (writeFile E outputPath buffer) (\<lambda>u.
                         bind (validate outputPath isVideo) (\<lambda>isValid.
                           if isValid then ret (Return (Some outputPath)) else ret (Next ())))
                     else ret (Next ())
                 | None \<Rightarrow> ret (Next ())))
              (askU (pwClose E))))"

text \<open>
  \<^verbatim>\<open>downloadFile(url, outputPath, browser, context, isVideo)\<close>. The browser and its context
  are the collaborators \<open>pw...\<close> of \<open>E\<close>.
\<close>

definition downloadFile :: "env \<Rightarrow> nat \<Rightarrow> string \<Rightarrow> string \<Rightarrow> bool \<Rightarrow> string option io" where
  "downloadFile E fuel url outputPath isVideo =
     (if url = [] \<or> trim url = [] then ret None
      else
        orNull
          (tryCatch
             (case extractGoogleDriveId E url of
                Some fileId \<Rightarrow>
                  if fileId \<noteq> [] then downloadShared E fuel fileId outputPath isVideo
                  else downloadRegular E url outputPath isVideo
              | None \<Rightarrow> downloadRegular E url outputPath isVideo)
             (\<lambda>error. ret (Return None))))"


section \<open>DiagramRenderer: \<^verbatim>\<open>renderMermaidDiagram\<close>\<close>

text \<open>\<^verbatim>\<open>s.replace(pat, rep)\<close> for a string pattern that is not empty: the first occurrence.\<close>

fun replaceFirst :: "string \<Rightarrow> string \<Rightarrow> string \<Rightarrow> string" where
  "replaceFirst pat rep [] = []"
| "replaceFirst pat rep (c # cs) =
     (if startsWith (c # cs) pat then rep @ drop (length pat) (c # cs)
      else c # replaceFirst pat rep cs)"

text \<open>The UTF-8 encoding of a string of code units below U+0100.\<close>

definition utf8Bytes :: "string \<Rightarrow> byte list" where
  "utf8Bytes s =
     concat (map (\<lambda>c. let b = (of_char c :: byte) in
                        if b < 0x80 then [b] else [0xC0 OR drop_bit 6 b, 0x80 OR (b AND 0x3F)]) s)"

text \<open>
  \<^verbatim>\<open>execSync(command, ...)\<close> of the external engine: it throws when the engine is missing or
  fails, and else has written the image to the output path. The command is logged.
\<close>

definition execSync :: "env \<Rightarrow> string \<Rightarrow> string \<Rightarrow> unit io" where
  "execSync E command outputPath w =
     (case mmdc E (clock w) command of
        Inl e \<Rightarrow> (Threw e, (tick w)\<lparr>commands := commands w @ [command]\<rparr>)
      | Inr rendered \<Rightarrow>
          (Ret (), (tick w)\<lparr>disk := (disk w)(outputPath \<mapsto> rendered),
                             commands := commands w @ [command]\<rparr>))"

text \<open>
  \<^verbatim>\<open>await sharp(Buffer.from(svg)).png().toFile(outputPath)\<close>. The PNG encoder writes the
  8 byte PNG signature and then the chunks of the image, which are the collaborator's answer.
\<close>

definition pngHeader :: "byte list" where
  "pngHeader = [0x89, 0x50, 0x4E, 0x47, 0x0D, 0x0A, 0x1A, 0x0A]"

definition sharpToFile :: "env \<Rightarrow> string \<Rightarrow> string \<Rightarrow> unit io" where
  "sharpToFile E svg outputPath w =
     (case sharpPng E (clock w) svg of
        Inl e \<Rightarrow> (Threw e, tick w)
      | Inr chunks \<Rightarrow> (Ret (), (tick w)\<lparr>disk := (disk w)(outputPath \<mapsto> pngHeader @ chunks)\<rparr>))"

text \<open>The template literal of lines 734 to 744: each line behind a line feed.\<close>

definition placeholderSvg :: string where
  \<open>placeholderSvg =
     concat (map (\<lambda>l. CHR 0x0A # l)
       [''        <svg width="800" height="600" xmlns="http://www.w3.org/2000/svg">'',
        ''          <rect width="800" height="600" fill="#1a1a1a"/>'',
        ''          <text x="400" y="300" font-family="Arial" font-size="24" fill="#00AEEF" text-anchor="middle">'',
        ''            Mermaid Diagram'',
        ''          </text>'',
        ''          <text x="400" y="330" font-family="Arial" font-size="14" fill="#FFFFFF" text-anchor="middle">'',
        ''            (Install mermaid-cli: npm install -g @mermaid-js/mermaid-cli)'',
        ''          </text>'',
        ''        </svg>'',
        ''      ''])\<close>

definition mmdcCommand :: "string \<Rightarrow> string \<Rightarrow> string" where
  \<open>mmdcCommand tempMmdFile outputPath =
     ''mmdc -i "'' @ tempMmdFile @ ''" -o "'' @ outputPath @ ''" -b transparent -t dark''\<close>

text \<open>\<^verbatim>\<open>renderMermaidDiagram(mermaidCode, outputPath)\<close>.\<close>

definition renderMermaidDiagram :: "env \<Rightarrow> string \<Rightarrow> string \<Rightarrow> string option io" where
  "renderMermaidDiagram E mermaidCode outputPath =
     tryCatch
       (tryCatch
          (let tempMmdFile = replaceFirst ''.png'' ''.mmd'' outputPath in
           bind (writeFile E tempMmdFile (utf8Bytes mermaidCode)) (\<lambda>u.
           bind (execSync E (mmdcCommand tempMmdFile outputPath) outputPath) (\<lambda>u.
           bind (unlink tempMmdFile) (\<lambda>u.
           ret (Some outputPath)))))
          (\<lambda>error.
             bind (sharpToFile E placeholderSvg outputPath) (\<lambda>u. ret (Some outputPath))))
       (\<lambda>error. ret None)"

subsection \<open>The diagram loop of \<^verbatim>\<open>generatePresentation\<close>\<close>

text \<open>A slide of type \<^verbatim>\<open>diagram\<close> carries \<^verbatim>\<open>diagram: { type, code }\<close>.\<close>

record diagramSpec =
  diagramType :: "string option"
  diagramCode :: "string option"

record diagramSlide = slide +
  diagram :: "diagramSpec option"

text \<open>An entry of \<^verbatim>\<open>assetMap\<close>.\<close>

record asset =
  assetType :: string
  assetPath :: "string option"

text \<open>The decimal digits of an index, for \<^verbatim>\<open>`diagram_${i}.png`\<close>.\<close>

function showNat :: "nat \<Rightarrow> string" where
  "showNat n =
     (if n < 10 then [char_of (48 + n)]
      else showNat (n div 10) @ [char_of (48 + n mod 10)])"
  by pat_completeness auto
termination
  by (relation "measure id") auto

declare showNat.simps [simp del]

text \<open>\<^verbatim>\<open>path.join(assetsDir, name)\<close> for a directory path in normal form.\<close>

definition pathJoin :: "string \<Rightarrow> string \<Rightarrow> string" where
  "pathJoin dir name = dir @ ''/'' @ name"

text \<open>
  Lines 1141 to 1154, one round of the loop over the slides: a diagram is rendered only
  when \<^verbatim>\<open>diagramCode.trim()\<close> is not empty; else a warning is logged.
\<close>

definition renderSlideDiagram ::
  "env \<Rightarrow> string \<Rightarrow> nat \<Rightarrow> 'a diagramSlide_scheme \<Rightarrow> (nat \<rightharpoonup> asset) \<Rightarrow> (nat \<rightharpoonup> asset) io" where
  "renderSlideDiagram E assetsDir i sl assetMap =
     (case diagram sl of
        Some d \<Rightarrow>
          if type sl = Some ''diagram'' \<and> diagramType d = Some ''mermaid'' then
            (let code = (case diagramCode d of None \<Rightarrow> [] | Some c \<Rightarrow> c) in
             if trim code \<noteq> [] then
               (let diagramPath = pathJoin assetsDir (''diagram_'' @ showNat i @ ''.png'') in
                bind (renderMermaidDiagram E code diagramPath) (\<lambda>p.
                  ret (assetMap(i \<mapsto> \<lparr>assetType = ''diagram'', assetPath = Some diagramPath\<rparr>))))
             else ret assetMap)
          else ret assetMap
      | None \<Rightarrow> ret assetMap)"

fun renderDiagrams ::
  "env \<Rightarrow> string \<Rightarrow> nat \<Rightarrow> 'a diagramSlide_scheme list \<Rightarrow> (nat \<rightharpoonup> asset) \<Rightarrow> (nat \<rightharpoonup> asset) io" where
  "renderDiagrams E assetsDir i [] assetMap = ret assetMap"
| "renderDiagrams E assetsDir i (sl # rest) assetMap =
     bind (renderSlideDiagram E assetsDir i sl assetMap) (renderDiagrams E assetsDir (i + 1) rest)"

section \<open>Concrete inputs\<close>

text \<open>Files: the head of a PNG image, an HTML page and the head of an MP4 container.\<close>

definition pngFile :: "byte list" where
  "pngFile = [0x89, 0x50, 0x4E, 0x47, 0x0D, 0x0A, 0x1A, 0x0A]"

definition htmlFile :: "byte list" where
  "htmlFile = asciiBytes ''<!DOCTYPE html><html>''"

definition mp4File :: "byte list" where
  "mp4File = [0x00, 0x00, 0x00, 0x18, 0x66, 0x74, 0x79, 0x70, 0x6D, 0x70, 0x34, 0x32]"

text \<open>Slides of the target category, and two slides of other kinds.\<close>

definition bullet :: "int \<Rightarrow> string \<Rightarrow> item" where
  "bullet l t = \<lparr>level = Some l, itemText = Some t\<rparr>"

definition sysReqSlide :: "item list \<Rightarrow> slide" where
  "sysReqSlide cs = \<lparr>type = Some ''content_bullets'', title = Some ''System Requirements'',
                      content = Some cs, group = None\<rparr>"

definition networkItems :: "item list" where
  "networkItems = [bullet 1 ''Per camera: 12 Mbps'', bullet 1 ''Total: 96 Mbps'',
                   bullet 1 ''Uplink: 100 Mbps'', bullet 1 ''Latency: 50 ms'']"

definition cameraItems :: "item list" where
  "cameraItems = [bullet 1 ''Resolution: 1080p'', bullet 1 ''Frame rate: 25 fps'',
                  bullet 1 ''Connectivity: RTSP'', bullet 1 ''Quantity: 8'']"

definition twoSectionSlide :: slide where
  "twoSectionSlide =
     sysReqSlide ([bullet 0 ''Network''] @ networkItems @ [bullet 1 ''Ports: 554'']
                  @ [bullet 0 ''Camera''] @ cameraItems @ [bullet 1 ''Lens: fixed''])"

definition twoSectionTrivialSlide :: slide where
  "twoSectionTrivialSlide =
     sysReqSlide ([bullet 0 ''Network''] @ networkItems @ [bullet 1 ''VPN: None required'']
                  @ [bullet 0 ''Camera''] @ cameraItems @ [bullet 1 ''Lens: fixed''])"

definition oneSectionSlide :: slide where
  "oneSectionSlide =
     sysReqSlide ([bullet 0 ''Camera''] @ cameraItems @ [bullet 1 ''Lens: fixed'']
                  @ networkItems @ cameraItems)"

definition oneSectionTrivialSlide :: slide where
  "oneSectionTrivialSlide =
     sysReqSlide ([bullet 0 ''Camera''] @ cameraItems @ [bullet 1 ''Power: Standard source'']
                  @ networkItems @ cameraItems)"

definition preambleSlide :: slide where
  "preambleSlide =
     sysReqSlide ([bullet 0 ''Deployment: on-premise''] @ [bullet 0 ''Network''] @ networkItems
                  @ [bullet 0 ''Camera''] @ cameraItems)"

definition shortSlide :: slide where
  "shortSlide = sysReqSlide [bullet 1 ''Resolution: 1080p'', bullet 1 ''Frame rate: 25 fps'']"

definition titleSlide :: slide where
  "titleSlide = \<lparr>type = Some ''title'', title = Some ''Video Analytics Proposal'',
                  content = None, group = None\<rparr>"

definition timelineSlide :: slide where
  "timelineSlide = \<lparr>type = Some ''timeline'', title = Some ''Implementation Plan'',
                     content = None, group = None\<rparr>"


text \<open>
  Collaborators: \<open>idleEnv\<close> has no network, no browser and no diagram engine; the other
  environments differ from it in the network. A world with an empty disk.
\<close>

definition idleEnv :: env where
  "idleEnv =
     \<lparr>httpGet = (\<lambda>n u. NoResponse (OtherError ''ECONNREFUSED'')),
      resolveUrl = (\<lambda>location base. None),
      parseUrl = (\<lambda>u. None),
      writeFails = (\<lambda>n p. False),
      pwNewPage = (\<lambda>n. Some (OtherError ''browser closed'')),
      pwClose = (\<lambda>n. None),
      pwWaitDownload = (\<lambda>n. None),
      pwRaceGoto = (\<lambda>n u. Some (OtherError ''Timeout 30000ms exceeded'')),
      pwGoto = (\<lambda>n u. Inl (OtherError ''Timeout 30000ms exceeded'')),
      pwUrl = (\<lambda>n. []),
      pwQuery = (\<lambda>n s. Inr False),
      pwClick = (\<lambda>n. None),
      pwSaveAs = (\<lambda>n. None),
      mmdc = (\<lambda>n c. Inl (OtherError ''mmdc: command not found'')),
      sharpPng = (\<lambda>n svg. Inr [0x00, 0x00, 0x00, 0x0D])\<rparr>"

definition relativeRedirectEnv :: env where
  "relativeRedirectEnv =
     idleEnv\<lparr>httpGet := (\<lambda>n u. if u = ''http://a.example/videos/clip''
                                then Response 302 (Some ''httpdocs/clip.mp4'') None []
                                else if u = ''http://a.example/videos/httpdocs/clip.mp4''
                                then Response 200 None (Some ''video/mp4'') mp4File
                                else NoResponse (OtherError ''Invalid URL'')),
             resolveUrl := (\<lambda>location base.
                              if location = ''httpdocs/clip.mp4'' \<and> base = ''http://a.example/videos/clip''
                              then Some ''http://a.example/videos/httpdocs/clip.mp4''
                              else None)\<rparr>"

definition startWorld :: world where
  "startWorld = \<lparr>disk = Map.empty, clock = 0, requests = [], commands = []\<rparr>"

definition htmlServerEnv :: env where
  "htmlServerEnv = idleEnv\<lparr>httpGet := (\<lambda>n u. Response 200 None (Some ''text/html'') htmlFile)\<rparr>"

definition loopEnv :: env where
  "loopEnv = idleEnv\<lparr>httpGet := (\<lambda>n u. Response 302 (Some ''https://proxy.example/login'') None [])\<rparr>"

definition redirectOnceEnv :: env where
  "redirectOnceEnv =
     idleEnv\<lparr>httpGet := (\<lambda>n u. if u = ''http://a.example/clip.mp4''
                                then Response 302 (Some ''http://b.example/clip.mp4'') None []
                                else Response 200 None (Some ''video/mp4'') mp4File)\<rparr>"

definition driveUrl :: string where
  "driveUrl = ''https://drive.google.com/file/d/1AbC_dEf-123/view''"

text \<open>Diagram slides: one whose source is white space only, one with a flowchart.\<close>

definition blankDiagramSlide :: diagramSlide where
  "blankDiagramSlide =
     \<lparr>type = Some ''diagram'', title = Some ''System Architecture'', content = None,
      group = None,
      diagram = Some \<lparr>diagramType = Some ''mermaid'',
                       diagramCode = Some [CHR 0x20, CHR 0x0A, CHR 0x09]\<rparr>\<rparr>"

definition flowDiagramSlide :: diagramSlide where
  "flowDiagramSlide =
     \<lparr>type = Some ''diagram'', title = Some ''System Architecture'', content = None,
      group = None,
      diagram = Some \<lparr>diagramType = Some ''mermaid'',
                       diagramCode = Some ''graph TD; Camera-->Server''\<rparr>\<rparr>"

section \<open>Properties of the validator\<close>

lemma take4_nth:
  "4 \<le> length xs \<Longrightarrow> (take 4 xs = [a, b, c, d]) = (xs ! 0 = a \<and> xs ! 1 = b \<and> xs ! 2 = c \<and> xs ! 3 = d)"
proof -
  assume len: "4 \<le> length xs"
  then obtain x0 x1 x2 x3 rest where xs: "xs = x0 # x1 # x2 # x3 # rest"
    by (metis Suc_le_length_iff numeral_Bit0 numeral_One add_Suc_right add_Suc add_0
              Suc_eq_plus1)
  show ?thesis by (simp add: xs)
qed

lemma checkMagic_prefix:
  assumes "4 \<le> length contents"
  shows "checkMagic (take (min 100 (length contents - 1) + 1) contents) expectedType
         = checkMagic contents expectedType"
proof -
  let ?b = "take (min 100 (length contents - 1) + 1) contents"
  have len: "length ?b = min 101 (length contents)" using assms by auto
  have nth: "\<And>i. i < 8 \<Longrightarrow> i < length contents \<Longrightarrow> ?b ! i = contents ! i"
    by simp
  have ptext: "prefixText ?b = prefixText contents"
    using assms by (simp add: prefixText_def min_def)
  have l8: "(8 \<le> length ?b) = (8 \<le> length contents)" using len by auto
  have n0: "?b ! 0 = contents ! 0" "?b ! 1 = contents ! 1" "?b ! 2 = contents ! 2"
    "?b ! 3 = contents ! 3" using assms by (simp_all add: nth)
  have n4: "8 \<le> length contents \<Longrightarrow> ?b ! 4 = contents ! 4 \<and> ?b ! 5 = contents ! 5
              \<and> ?b ! 6 = contents ! 6 \<and> ?b ! 7 = contents ! 7"
    by (simp add: nth)
  show ?thesis
    unfolding checkMagic_def ptext l8 n0 using n4 by (auto simp: Let_def)
qed

lemma validateFileType_missing: "fsys p = None \<Longrightarrow> \<not> validateFileType fsys p t"
  by (simp add: validateFileType_def)

lemma video_rejects_png:
  assumes "fsys filePath = Some contents" and sig: "take 4 contents = pngSignature"
  shows "\<not> validateFileType fsys filePath ''video''"
proof (cases "length contents < 4")
  case True
  then show ?thesis using assms by (simp add: validateFileType_def)
next
  case False
  then have "4 \<le> length contents" by simp
  from take4_nth [OF this] sig
  have "contents ! 0 = 0x89 \<and> contents ! 1 = 0x50 \<and> contents ! 2 = 0x4E \<and> contents ! 3 = 0x47"
    by (simp add: pngSignature_def)
  then show ?thesis using assms by (simp add: validateFileType_def checkMagic_def)
qed

lemma video_rejects_html:
  assumes "fsys filePath = Some contents" and "isHtmlPrefix contents"
  shows "\<not> validateFileType fsys filePath ''video''"
  using assms by (simp add: validateFileType_def checkMagic_def isHtmlPrefix_def Let_def)

lemma rejects_small:
  assumes "fsys filePath = Some contents" and "length contents < 4"
  shows "\<not> validateFileType fsys filePath expectedType"
  using assms by (simp add: validateFileType_def)

lemma video_accepts_ftyp:
  assumes "fsys filePath = Some contents" and l8: "8 \<le> length contents"
    and nosig: "take 4 contents \<noteq> pngSignature" and nohtml: "\<not> isHtmlPrefix contents"
    and marker: "take 4 (drop 4 contents) = ftypMarker"
  shows "validateFileType fsys filePath ''video''"
proof -
  from l8 have l4: "4 \<le> length contents" and l84: "4 \<le> length (drop 4 contents)"
    by auto
  from nosig take4_nth [OF l4]
  have nopng: "\<not> (contents ! 0 = 0x89 \<and> contents ! 1 = 0x50 \<and> contents ! 2 = 0x4E \<and> contents ! 3 = 0x47)"
    by (simp add: pngSignature_def)
  from marker take4_nth [OF l84]
  have "drop 4 contents ! 0 = 0x66 \<and> drop 4 contents ! 1 = 0x74
        \<and> drop 4 contents ! 2 = 0x79 \<and> drop 4 contents ! 3 = 0x70"
    by (simp add: ftypMarker_def)
  then have ftyp: "contents ! 4 = 0x66 \<and> contents ! 5 = 0x74 \<and> contents ! 6 = 0x79 \<and> contents ! 7 = 0x70"
    using l8 by simp
  show ?thesis
    using assms(1) l8 nopng ftyp nohtml
    by (simp add: validateFileType_def checkMagic_def isHtmlPrefix_def Let_def)
qed

text \<open>
  C5. \<^verbatim>\<open>validateFileType(file, "video")\<close> is false for every file whose first four bytes
  are the PNG signature, false for every file whose (lower-cased, at most 100 byte) prefix
  contains \<^verbatim>\<open><!doctype\<close> or \<^verbatim>\<open><html\<close>, false for every file of fewer than 4 bytes, and
  true for a file of at least 8 bytes that is neither of the first two and whose bytes 4 to 7
  are \<^verbatim>\<open>ftyp\<close>.
\<close>

theorem validateFileType_video:
  assumes "fsys filePath = Some contents"
  shows "(take 4 contents = pngSignature \<longrightarrow> \<not> validateFileType fsys filePath ''video'')
       \<and> (isHtmlPrefix contents \<longrightarrow> \<not> validateFileType fsys filePath ''video'')
       \<and> (length contents < 4 \<longrightarrow> \<not> validateFileType fsys filePath ''video'')
       \<and> (8 \<le> length contents \<and> take 4 contents \<noteq> pngSignature \<and> \<not> isHtmlPrefix contents
            \<and> take 4 (drop 4 contents) = ftypMarker
          \<longrightarrow> validateFileType fsys filePath ''video'')"
  using assms video_rejects_png [of fsys filePath contents]
    video_rejects_html [of fsys filePath contents]
    rejects_small [of fsys filePath contents "''video''"]
    video_accepts_ftyp [of fsys filePath contents]
  by blast

lemma htmlFile_isHtml: "isHtmlPrefix htmlFile"
  by (simp add: isHtmlPrefix_def htmlFile_def asciiBytes_def prefixText_def lowerByte_def
      startsWith_def)

lemma mp4File_notHtml: "\<not> isHtmlPrefix mp4File"
  by (simp add: isHtmlPrefix_def mp4File_def asciiBytes_def prefixText_def lowerByte_def
      startsWith_def)

theorem validateFileType_video_witness:
  "(take 4 pngFile = pngSignature
      \<and> \<not> validateFileType [''a.mp4'' \<mapsto> pngFile] ''a.mp4'' ''video'')
   \<and> (isHtmlPrefix htmlFile
      \<and> \<not> validateFileType [''a.mp4'' \<mapsto> htmlFile] ''a.mp4'' ''video'')
   \<and> (length [0x00, 0x00 :: byte] < 4
      \<and> \<not> validateFileType [''a.mp4'' \<mapsto> [0x00, 0x00]] ''a.mp4'' ''video'')
   \<and> (8 \<le> length mp4File \<and> take 4 mp4File \<noteq> pngSignature \<and> \<not> isHtmlPrefix mp4File
      \<and> take 4 (drop 4 mp4File) = ftypMarker
      \<and> validateFileType [''a.mp4'' \<mapsto> mp4File] ''a.mp4'' ''video'')"
proof -
  have a: "take 4 pngFile = pngSignature"
    by (simp add: pngFile_def pngSignature_def)
  have c: "length [0x00, 0x00 :: byte] < 4" by simp
  have d: "8 \<le> length mp4File \<and> take 4 mp4File \<noteq> pngSignature
           \<and> take 4 (drop 4 mp4File) = ftypMarker"
    by (simp add: mp4File_def pngSignature_def ftypMarker_def)
  show ?thesis
    using a htmlFile_isHtml c d mp4File_notHtml
      validateFileType_video [of "[''a.mp4'' \<mapsto> pngFile]" "''a.mp4''" pngFile]
      validateFileType_video [of "[''a.mp4'' \<mapsto> htmlFile]" "''a.mp4''" htmlFile]
      validateFileType_video [of "[''a.mp4'' \<mapsto> [0x00, 0x00]]" "''a.mp4''" "[0x00, 0x00]"]
      validateFileType_video [of "[''a.mp4'' \<mapsto> mp4File]" "''a.mp4''" mp4File]
    by simp
qed

text \<open>
  C10. For every file of at least 4 bytes and every \<^verbatim>\<open>expectedType\<close> other than
  \<^verbatim>\<open>"image"\<close> and \<^verbatim>\<open>"video"\<close>, \<^verbatim>\<open>validateFileType\<close> returns true, whatever the bytes of the
  file are.
\<close>

theorem validateFileType_unknown_kind:
  assumes "fsys filePath = Some contents" and "4 \<le> length contents"
    and "expectedType \<noteq> ''image''" and "expectedType \<noteq> ''video''"
  shows "validateFileType fsys filePath expectedType"
  using assms by (simp add: validateFileType_def checkMagic_def)

theorem validateFileType_unknown_kind_witness:
  "[''a.bin'' \<mapsto> htmlFile] ''a.bin'' = Some htmlFile \<and> 4 \<le> length htmlFile
   \<and> ''audio'' \<noteq> ''image'' \<and> ''audio'' \<noteq> ''video''
   \<and> validateFileType [''a.bin'' \<mapsto> htmlFile] ''a.bin'' ''audio''"
proof -
  have l: "4 \<le> length htmlFile" by (simp add: htmlFile_def asciiBytes_def)
  show ?thesis
    using l validateFileType_unknown_kind
      [of "[''a.bin'' \<mapsto> htmlFile]" "''a.bin''" htmlFile "''audio''"]
    by simp
qed


section \<open>Properties of the aggregator\<close>

subsection \<open>The loops compute the list view\<close>

lemma collectLoop_eq:
  "collectLoop slides i acc =
     (i + length (takeWhile isSystemRequirements (drop (Suc i) slides)),
      acc @ takeWhile isSystemRequirements (drop (Suc i) slides))"
proof (induction slides i acc rule: collectLoop.induct)
  case (1 slides i acc)
  show ?case
  proof (cases "i + 1 < length slides")
    case False
    then show ?thesis by (subst collectLoop.simps) simp
  next
    case True
    then have d: "drop (Suc i) slides = slides ! (i + 1) # drop (Suc (i + 1)) slides"
      by (simp add: Cons_nth_drop_Suc)
    show ?thesis
    proof (cases "isSystemRequirements (slides ! (i + 1))")
      case False
      with True show ?thesis by (subst collectLoop.simps) (simp add: d)
    next
      case sr: True
      from "1.IH" [OF True refl sr] True sr show ?thesis
        by (subst collectLoop.simps) (simp add: d)
    qed
  qed
qed

lemma processSlide_append: "processSlide agg sl = agg @ processSlide [] sl"
  by (simp add: processSlide_def Let_def)

lemma foldl_processSlide:
  "foldl processSlide agg xs = agg @ concat (map (processSlide []) xs)"
proof (induction xs arbitrary: agg)
  case Nil
  show ?case by simp
next
  case (Cons x xs)
  show ?case
    by (simp add: Cons.IH processSlide_append [of agg x])
qed

lemma aggRun_split:
  "aggRun run rest =
     flushRun (run @ takeWhile isSystemRequirements rest)
     @ aggRun [] (dropWhile isSystemRequirements rest)"
proof (induction rest arbitrary: run)
  case Nil
  show ?case by (simp add: flushRun_def foldl_processSlide)
next
  case (Cons sl rest)
  show ?case
    by (simp add: Cons.IH [of "run @ [sl]"] flushRun_def foldl_processSlide)
qed

lemma aggregateLoop_eq:
  "aggregateLoop slides i agg = agg @ aggRun [] (drop i slides)"
proof (induction slides i agg rule: aggregateLoop.induct)
  case (1 slides i agg)
  show ?case
  proof (cases "i < length slides")
    case False
    then show ?thesis by (subst aggregateLoop.simps) simp
  next
    case True
    then have d: "drop i slides = slides ! i # drop (Suc i) slides"
      by (simp add: Cons_nth_drop_Suc)
    let ?r = "takeWhile isSystemRequirements (drop (Suc i) slides)"
    show ?thesis
    proof (cases "isSystemRequirements (slides ! i)")
      case False
      from "1.IH"(3) [OF True refl False] True False show ?thesis
        by (subst aggregateLoop.simps) (simp add: d flushRun_def)
    next
      case sr: True
      have c: "collectLoop slides i [slides ! i] = (i + length ?r, slides ! i # ?r)"
        by (simp add: collectLoop_eq)
      have dd: "drop (Suc (i + length ?r)) slides = dropWhile isSystemRequirements (drop (Suc i) slides)"
      proof -
        have "dropWhile isSystemRequirements (drop (Suc i) slides) = drop (length ?r) (drop (Suc i) slides)"
          by (rule dropWhile_eq_drop)
        also have "\<dots> = drop (length ?r + Suc i) slides" by (rule drop_drop)
        finally show ?thesis by (simp add: add.commute)
      qed
      have run: "aggRun [] (drop i slides) = flushRun (slides ! i # ?r) @ aggRun [] (drop (Suc (i + length ?r)) slides)"
        using sr by (simp add: d dd aggRun_split [of "[slides ! i]"])
      show ?thesis
      proof (cases "filter isNonTrivial (slides ! i # ?r) = []")
        case e: True
        have "aggregateLoop slides i agg = aggregateLoop slides (i + length ?r + 1) agg"
          using True sr e by (subst aggregateLoop.simps) (simp add: c Let_def)
        also have "\<dots> = agg @ aggRun [] (drop (i + length ?r + 1) slides)"
          using "1.IH"(1) [OF True refl sr c [symmetric] refl refl] e by simp
        finally show ?thesis using e by (simp add: run flushRun_def)
      next
        case ne: False
        have "aggregateLoop slides i agg = aggregateLoop slides (i + length ?r + 1)
                 (foldl processSlide agg (filter isNonTrivial (slides ! i # ?r)))"
          using True sr ne by (subst aggregateLoop.simps) (simp add: c Let_def)
        also have "\<dots> = foldl processSlide agg (filter isNonTrivial (slides ! i # ?r))
                          @ aggRun [] (drop (i + length ?r + 1) slides)"
          using "1.IH"(2) [OF True refl sr c [symmetric] refl refl] ne by simp
        finally show ?thesis by (simp add: run flushRun_def foldl_processSlide)
      qed
    qed
  qed
qed


lemma aggregateSlides_eq: "aggregateSlides slides = aggRun [] slides"
  by (simp add: aggregateSlides_def aggregateLoop_eq)

lemma isNonTrivial_iff:
  "isNonTrivial sl = (\<not> (matchesTrivialPhrasing sl \<or> blockCount sl \<le> 2))"
  by (auto simp: isNonTrivial_def matchesTrivialPhrasing_def blockCount_def)

lemma aggRun_append_hd:
  "ys = [] \<or> \<not> isSystemRequirements (hd ys) \<Longrightarrow> aggRun run (xs @ ys) = aggRun run xs @ aggRun [] ys"
proof (induction xs arbitrary: run)
  case Nil
  then show ?case by (cases ys) auto
next
  case (Cons x xs)
  then show ?case by simp
qed

lemma aggRun_append_last:
  "xs \<noteq> [] \<Longrightarrow> \<not> isSystemRequirements (last xs) \<Longrightarrow> aggRun run (xs @ ys) = aggRun run xs @ aggRun [] ys"
proof (induction xs arbitrary: run)
  case Nil
  then show ?case by simp
next
  case (Cons x xs)
  show ?case
  proof (cases "xs = []")
    case True
    with Cons.prems show ?thesis by simp
  next
    case False
    with Cons.prems have "\<not> isSystemRequirements (last xs)" by simp
    from Cons.IH [OF False this] show ?thesis by simp
  qed
qed

lemma aggRun_all:
  "\<forall>sl\<in>set run. isSystemRequirements sl \<Longrightarrow> aggRun acc run = flushRun (acc @ run)"
  by (induction run arbitrary: acc) (simp_all add: flushRun_def foldl_processSlide)

lemma processSlide_nonempty: "processSlide [] sl \<noteq> []"
  by (auto simp: processSlide_def Let_def)

lemma aggregateSlides_passes:
  "\<not> isSystemRequirements sl \<Longrightarrow> aggregateSlides (sl # rest) = sl # aggregateSlides rest"
  by (simp add: aggregateSlides_eq)

lemma aggregateSlides_single:
  assumes "isSystemRequirements sl" and "isNonTrivial sl"
  shows "aggregateSlides [sl] = processSlide [] sl"
  using assms by (simp add: aggregateSlides_eq)

lemma sectionBoundariesFrom_names:
  "(i, n) \<in> set (sectionBoundariesFrom k cs) \<Longrightarrow> n \<in> set sectionNames"
  by (induction cs arbitrary: k) (auto simp: Let_def split: if_splits)


subsection \<open>The filter\<close>

text \<open>
  C2, as the code has it. In a list \<open>before @ run @ after\<close> where \<open>run\<close> is a maximal run
  of target-category slides, the slides derived from \<open>run\<close> are the slides that
  \<^verbatim>\<open>forEach\<close> pushes (at least one each) for exactly those slides of \<open>run\<close> that neither match
  a trivial phrase nor have at most 2 content blocks: a slide is dropped exactly when it
  matches a trivial phrase OR has at most 2 blocks. When every slide of the run is dropped,
  no output slide is derived from the run.
\<close>

theorem aggregateSlides_filter:
  assumes "\<forall>sl\<in>set run. isSystemRequirements sl"
    and "before = [] \<or> \<not> isSystemRequirements (last before)"
    and "after = [] \<or> \<not> isSystemRequirements (hd after)"
  shows "aggregateSlides (before @ run @ after) =
           aggregateSlides before
           @ concat (map (processSlide [])
               (filter (\<lambda>sl. \<not> (matchesTrivialPhrasing sl \<or> blockCount sl \<le> 2)) run))
           @ aggregateSlides after
         \<and> (\<forall>sl. processSlide [] sl \<noteq> [])
         \<and> ((\<forall>sl\<in>set run. matchesTrivialPhrasing sl \<or> blockCount sl \<le> 2) \<longrightarrow>
              aggregateSlides (before @ run @ after) = aggregateSlides before @ aggregateSlides after)"
proof -
  have f: "filter isNonTrivial run = filter (\<lambda>sl. \<not> (matchesTrivialPhrasing sl \<or> blockCount sl \<le> 2)) run"
    by (simp add: isNonTrivial_iff [abs_def])
  have a: "aggRun [] (run @ after) = aggRun [] run @ aggRun [] after"
    using assms(3) by (rule aggRun_append_hd)
  have b: "aggRun [] (before @ run @ after) = aggRun [] before @ aggRun [] (run @ after)"
  proof (cases "before = []")
    case True
    then show ?thesis by (simp add: flushRun_def aggRun_all)
  next
    case False
    with assms(2) show ?thesis by (simp add: aggRun_append_last)
  qed
  have r: "aggRun [] run = concat (map (processSlide []) (filter isNonTrivial run))"
    using aggRun_all [OF assms(1), of "[]"] by (simp add: flushRun_def)
  have main: "aggregateSlides (before @ run @ after) =
           aggregateSlides before
           @ concat (map (processSlide [])
               (filter (\<lambda>sl. \<not> (matchesTrivialPhrasing sl \<or> blockCount sl \<le> 2)) run))
           @ aggregateSlides after"
    by (simp add: aggregateSlides_eq a b r f)
  have allt: "(\<forall>sl\<in>set run. matchesTrivialPhrasing sl \<or> blockCount sl \<le> 2) \<longrightarrow>
      filter (\<lambda>sl. \<not> (matchesTrivialPhrasing sl \<or> blockCount sl \<le> 2)) run = []"
    by (auto simp: filter_empty_conv)
  show ?thesis using main allt processSlide_nonempty by auto
qed



lemma filter_witness_facts:
  "isSystemRequirements shortSlide \<and> isSystemRequirements oneSectionSlide
   \<and> isSystemRequirements twoSectionTrivialSlide
   \<and> \<not> isSystemRequirements titleSlide \<and> \<not> isSystemRequirements timelineSlide
   \<and> \<not> matchesTrivialPhrasing shortSlide \<and> blockCount shortSlide = 2
   \<and> \<not> matchesTrivialPhrasing oneSectionSlide \<and> blockCount oneSectionSlide = 14
   \<and> matchesTrivialPhrasing twoSectionTrivialSlide \<and> blockCount twoSectionTrivialSlide = 12"
  by code_simp

theorem aggregateSlides_filter_witness:
  "isSystemRequirements shortSlide \<and> isSystemRequirements oneSectionSlide
   \<and> isSystemRequirements twoSectionTrivialSlide
   \<and> \<not> isSystemRequirements (last [titleSlide]) \<and> \<not> isSystemRequirements (hd [timelineSlide])
   \<and> aggregateSlides ([titleSlide] @ [shortSlide, oneSectionSlide, twoSectionTrivialSlide] @ [timelineSlide])
       = aggregateSlides [titleSlide] @ processSlide [] oneSectionSlide @ aggregateSlides [timelineSlide]
   \<and> aggregateSlides ([titleSlide] @ [shortSlide, twoSectionTrivialSlide] @ [timelineSlide])
       = aggregateSlides [titleSlide] @ aggregateSlides [timelineSlide]"
proof -
  note f = filter_witness_facts
  have h2: "[titleSlide] = [] \<or> \<not> isSystemRequirements (last [titleSlide])" using f by simp
  have h3: "[timelineSlide] = [] \<or> \<not> isSystemRequirements (hd [timelineSlide])" using f by simp
  have h1: "\<forall>sl\<in>set [shortSlide, oneSectionSlide, twoSectionTrivialSlide]. isSystemRequirements sl"
    using f by simp
  have k: "filter (\<lambda>sl. \<not> (matchesTrivialPhrasing sl \<or> blockCount sl \<le> 2))
             [shortSlide, oneSectionSlide, twoSectionTrivialSlide] = [oneSectionSlide]"
    using f by simp
  from aggregateSlides_filter [OF h1 h2 h3]
  have "aggregateSlides ([titleSlide] @ [shortSlide, oneSectionSlide, twoSectionTrivialSlide] @ [timelineSlide]) =
          aggregateSlides [titleSlide]
          @ concat (map (processSlide [])
              (filter (\<lambda>sl. \<not> (matchesTrivialPhrasing sl \<or> blockCount sl \<le> 2))
                 [shortSlide, oneSectionSlide, twoSectionTrivialSlide]))
          @ aggregateSlides [timelineSlide]"
    by (rule conjunct1)
  then have a: "aggregateSlides ([titleSlide] @ [shortSlide, oneSectionSlide, twoSectionTrivialSlide] @ [timelineSlide])
       = aggregateSlides [titleSlide] @ processSlide [] oneSectionSlide @ aggregateSlides [timelineSlide]"
    unfolding k by (simp del: append.simps)
  have h1': "\<forall>sl\<in>set [shortSlide, twoSectionTrivialSlide]. isSystemRequirements sl"
    using f by simp
  have allTrivial: "\<forall>sl\<in>set [shortSlide, twoSectionTrivialSlide].
                      matchesTrivialPhrasing sl \<or> blockCount sl \<le> 2"
    using f by simp
  from aggregateSlides_filter [OF h1' h2 h3] allTrivial
  have b: "aggregateSlides ([titleSlide] @ [shortSlide, twoSectionTrivialSlide] @ [timelineSlide])
       = aggregateSlides [titleSlide] @ aggregateSlides [timelineSlide]"
    by blast
  have c: "\<not> isSystemRequirements (last [titleSlide]) \<and> \<not> isSystemRequirements (hd [timelineSlide])"
    using f by simp
  show ?thesis using f a b c by blast
qed

text \<open>
  The claim as stated, with AND, fails in both directions of "exactly when": a slide of 2
  blocks that matches no trivial phrase is dropped, and so is a slide of 12 blocks that
  matches one.
\<close>

theorem aggregateSlides_filter_counterexample:
  "isSystemRequirements shortSlide
   \<and> \<not> (matchesTrivialPhrasing shortSlide \<and> blockCount shortSlide \<le> 2)
   \<and> aggregateSlides [shortSlide] = []
   \<and> isSystemRequirements twoSectionTrivialSlide
   \<and> \<not> (matchesTrivialPhrasing twoSectionTrivialSlide \<and> blockCount twoSectionTrivialSlide \<le> 2)
   \<and> aggregateSlides [twoSectionTrivialSlide] = []"
  by code_simp

subsection \<open>Splitting one slide\<close>

text \<open>
  C7, as the code has it. A single target-category slide that the filter retains, with 12
  content blocks and the two section headers Network and Camera, yields exactly 2 slides,
  one per section, titled \<^verbatim>\<open>System Requirements: Network\<close> and
  \<^verbatim>\<open>System Requirements: Camera\<close>; each carries the blocks from its header up to the next
  header or the end.
\<close>

theorem aggregateSlides_two_sections:
  assumes "isSystemRequirements sl" and "isNonTrivial sl"
    and "length (contentOf sl) = 12"
    and "sectionBoundaries (contentOf sl) = [(i, n1), (j, n2)]"
    and "{n1, n2} = {''Network'', ''Camera''}"
  shows "aggregateSlides [sl] =
           [sl\<lparr>title := Some (''System Requirements: '' @ n1),
                content := Some (slice (contentOf sl) i j),
                group := Some (groupName n1)\<rparr>,
            sl\<lparr>title := Some (''System Requirements: '' @ n2),
                content := Some (slice (contentOf sl) j 12),
                group := Some (groupName n2)\<rparr>]
         \<and> set (map title (aggregateSlides [sl])) =
             {Some ''System Requirements: Network'', Some ''System Requirements: Camera''}"
proof -
  have out: "aggregateSlides [sl] =
           [sl\<lparr>title := Some (''System Requirements: '' @ n1),
                content := Some (slice (contentOf sl) i j),
                group := Some (groupName n1)\<rparr>,
            sl\<lparr>title := Some (''System Requirements: '' @ n2),
                content := Some (slice (contentOf sl) j 12),
                group := Some (groupName n2)\<rparr>]"
    using assms(3,4)
    by (simp add: aggregateSlides_single [OF assms(1,2)] processSlide_def sectionSlide_def
        MAX_ITEMS_PER_SLIDE_def baseTitle_def Let_def)
  have "{Some (''System Requirements: '' @ n1), Some (''System Requirements: '' @ n2)}
        = (\<lambda>n. Some (''System Requirements: '' @ n)) ` {n1, n2}"
    by simp
  also have "\<dots> = {Some ''System Requirements: Network'', Some ''System Requirements: Camera''}"
    by (simp only: assms(5)) simp
  finally show ?thesis by (simp add: out)
qed


lemma twoSection_facts:
  "isSystemRequirements twoSectionSlide \<and> isNonTrivial twoSectionSlide
   \<and> length (contentOf twoSectionSlide) = 12
   \<and> sectionBoundaries (contentOf twoSectionSlide) = [(0, ''Network''), (6, ''Camera'')]"
  by code_simp

theorem aggregateSlides_two_sections_witness:
  "isSystemRequirements twoSectionSlide \<and> isNonTrivial twoSectionSlide
   \<and> length (contentOf twoSectionSlide) = 12
   \<and> sectionBoundaries (contentOf twoSectionSlide) = [(0, ''Network''), (6, ''Camera'')]
   \<and> aggregateSlides [twoSectionSlide] =
       [twoSectionSlide\<lparr>title := Some ''System Requirements: Network'',
            content := Some (slice (contentOf twoSectionSlide) 0 6),
            group := Some (groupName ''Network'')\<rparr>,
        twoSectionSlide\<lparr>title := Some ''System Requirements: Camera'',
            content := Some (slice (contentOf twoSectionSlide) 6 12),
            group := Some (groupName ''Camera'')\<rparr>]"
  using twoSection_facts
    aggregateSlides_two_sections [of twoSectionSlide 0 "''Network''" 6 "''Camera''"]
  by simp

text \<open>
  The claim as stated fails for a slide of this shape that the filter drops: one of its 12
  blocks reads \<^verbatim>\<open>VPN: None required\<close>, and no slide is derived from it.
\<close>

theorem aggregateSlides_two_sections_counterexample:
  "isSystemRequirements twoSectionTrivialSlide
   \<and> length (contentOf twoSectionTrivialSlide) = 12
   \<and> sectionBoundaries (contentOf twoSectionTrivialSlide) = [(0, ''Network''), (6, ''Camera'')]
   \<and> aggregateSlides [twoSectionTrivialSlide] = []"
  by code_simp

text \<open>
  C8, as the code has it. A single target-category slide that the filter retains, with 14
  content blocks and exactly one section header, yields exactly 2 slides whose titles end
  in \<^verbatim>\<open>(1/2)\<close> and \<^verbatim>\<open>(2/2)\<close>; the first carries blocks 0 to 6 and the second blocks 7 to 13.
\<close>

theorem aggregateSlides_halves:
  assumes "isSystemRequirements sl" and "isNonTrivial sl"
    and "length (contentOf sl) = 14"
    and "sectionBoundaries (contentOf sl) = [(i, n)]"
  shows "aggregateSlides [sl] =
           [sl\<lparr>title := Some (''System Requirements: '' @ n @ '' (1/2)''),
                content := Some (take 7 (contentOf sl)),
                group := Some ''split_1''\<rparr>,
            sl\<lparr>title := Some (''System Requirements: '' @ n @ '' (2/2)''),
                content := Some (drop 7 (contentOf sl)),
                group := Some ''split_2''\<rparr>]
         \<and> length (take 7 (contentOf sl)) = 7 \<and> length (drop 7 (contentOf sl)) = 7
         \<and> take 7 (contentOf sl) @ drop 7 (contentOf sl) = contentOf sl"
proof -
  have "(i, n) \<in> set (sectionBoundariesFrom 0 (contentOf sl))"
    using assms(4) by (simp add: sectionBoundaries_def)
  then have "n \<in> set sectionNames" by (rule sectionBoundariesFrom_names)
  then have n: "n \<noteq> []" by (auto simp: sectionNames_def)
  have "aggregateSlides [sl] =
           [sl\<lparr>title := Some (''System Requirements: '' @ n @ '' (1/2)''),
                content := Some (take 7 (contentOf sl)),
                group := Some ''split_1''\<rparr>,
            sl\<lparr>title := Some (''System Requirements: '' @ n @ '' (2/2)''),
                content := Some (drop 7 (contentOf sl)),
                group := Some ''split_2''\<rparr>]"
    using assms(3,4) n
    by (simp add: aggregateSlides_single [OF assms(1,2)] processSlide_def slice_def
        MAX_ITEMS_PER_SLIDE_def baseTitle_def Let_def)
  then show ?thesis using assms(3) by simp
qed



lemma oneSection_facts:
  "isSystemRequirements oneSectionSlide \<and> isNonTrivial oneSectionSlide
   \<and> length (contentOf oneSectionSlide) = 14
   \<and> sectionBoundaries (contentOf oneSectionSlide) = [(0, ''Camera'')]"
  by code_simp

theorem aggregateSlides_halves_witness:
  "isSystemRequirements oneSectionSlide \<and> isNonTrivial oneSectionSlide
   \<and> length (contentOf oneSectionSlide) = 14
   \<and> sectionBoundaries (contentOf oneSectionSlide) = [(0, ''Camera'')]
   \<and> aggregateSlides [oneSectionSlide] =
       [oneSectionSlide\<lparr>title := Some ''System Requirements: Camera (1/2)'',
            content := Some (take 7 (contentOf oneSectionSlide)),
            group := Some ''split_1''\<rparr>,
        oneSectionSlide\<lparr>title := Some ''System Requirements: Camera (2/2)'',
            content := Some (drop 7 (contentOf oneSectionSlide)),
            group := Some ''split_2''\<rparr>]"
  using oneSection_facts aggregateSlides_halves [of oneSectionSlide 0 "''Camera''"]
  by simp

text \<open>
  The claim as stated fails for a slide of this shape that the filter drops: one of its 14
  blocks reads \<^verbatim>\<open>Power: Standard source\<close>, and no slide is derived from it.
\<close>

theorem aggregateSlides_halves_counterexample:
  "isSystemRequirements oneSectionTrivialSlide
   \<and> length (contentOf oneSectionTrivialSlide) = 14
   \<and> sectionBoundaries (contentOf oneSectionTrivialSlide) = [(0, ''Camera'')]
   \<and> aggregateSlides [oneSectionTrivialSlide] = []"
  by code_simp

subsection \<open>The number of content blocks\<close>

text \<open>
  The section headers found by the scan have increasing indices below the number of blocks,
  so the slices of the split by sections are the blocks from the first header on. Of the
  blocks of a retained slide, exactly those in front of the first header of a slide split by
  sections are in no derived slide (\<open>run_blocks\<close>); the halving and the unchanged slide keep
  every block.
\<close>

lemma sectionBoundariesFrom_range:
  "(i, n) \<in> set (sectionBoundariesFrom k cs) \<Longrightarrow> k \<le> i \<and> i < k + length cs"
proof (induction cs arbitrary: k)
  case Nil
  then show ?case by simp
next
  case (Cons it rest)
  from Cons.prems have "(i, n) = (k, trim (textOf it)) \<or> (i, n) \<in> set (sectionBoundariesFrom (Suc k) rest)"
    by (auto simp: Let_def split: if_splits)
  then show ?case
  proof
    assume "(i, n) = (k, trim (textOf it))"
    then show ?thesis by simp
  next
    assume "(i, n) \<in> set (sectionBoundariesFrom (Suc k) rest)"
    from Cons.IH [OF this] show ?thesis by simp
  qed
qed

lemma sectionBoundariesFrom_sorted:
  "sorted_wrt (<) (map fst (sectionBoundariesFrom k cs))"
proof (induction cs arbitrary: k)
  case Nil
  show ?case by simp
next
  case (Cons it rest)
  have later: "\<forall>b \<in> set (sectionBoundariesFrom (Suc k) rest). k < fst b"
    using sectionBoundariesFrom_range [of _ _ "Suc k" rest] by fastforce
  show ?case
    using Cons.IH [of "Suc k"] later by (simp add: Let_def)
qed

lemma telescope:
  fixes bs :: "(nat \<times> 'b) list"
  assumes "bs \<noteq> []" and "sorted_wrt (<) (map fst bs)" and "\<forall>b \<in> set bs. fst b < L"
  shows "sum_list (map (\<lambda>i. (if i < length bs - 1 then fst (bs ! (i + 1)) else L) - fst (bs ! i))
                      [0 ..< length bs]) = L - fst (bs ! 0)"
  using assms
proof (induction bs)
  case Nil
  then show ?case by simp
next
  case (Cons b bs)
  show ?case
  proof (cases "bs = []")
    case True
    then show ?thesis by simp
  next
    case False
    then obtain b' bs' where bs: "bs = b' # bs'" by (cases bs) auto
    have ih: "sum_list (map (\<lambda>i. (if i < length bs - 1 then fst (bs ! (i + 1)) else L) - fst (bs ! i))
                      [0 ..< length bs]) = L - fst (bs ! 0)"
      using Cons.IH False Cons.prems by simp
    have shift: "map (\<lambda>i. (if i < length (b # bs) - 1 then fst ((b # bs) ! (i + 1)) else L) - fst ((b # bs) ! i))
                   [0 ..< length (b # bs)]
          = (fst (bs ! 0) - fst b)
            # map (\<lambda>i. (if i < length bs - 1 then fst (bs ! (i + 1)) else L) - fst (bs ! i)) [0 ..< length bs]"
      using False by (simp add: map_upt_Suc bs del: upt_Suc)
    have "fst b < fst (bs ! 0)" and "fst (bs ! 0) < L"
      using Cons.prems bs by auto
    then show ?thesis unfolding shift using ih by simp
  qed
qed

lemma blockCount_update [simp]:
  "blockCount (sl\<lparr>title := t, content := Some cs, group := g\<rparr>) = length cs"
  "blockCount (sl\<lparr>title := t, group := g\<rparr>) = blockCount sl"
  by (simp_all add: blockCount_def contentOf_def)

lemma sectionSlide_blocks:
  assumes "secIdx < length bounds" and "sorted_wrt (<) (map fst bounds)"
    and "\<forall>b \<in> set bounds. fst b < length cs"
  shows "blockCount (sectionSlide sl cs bounds secIdx)
         = (if secIdx < length bounds - 1 then fst (bounds ! (secIdx + 1)) else length cs)
           - fst (bounds ! secIdx)"
proof -
  have "fst (bounds ! secIdx) < length cs" using assms(1,3) by simp
  moreover have "secIdx < length bounds - 1 \<Longrightarrow> fst (bounds ! (secIdx + 1)) < length cs"
    using assms(3) by simp
  ultimately show ?thesis
    by (auto simp: sectionSlide_def slice_def Let_def)
qed

lemma processSlide_blocks:
  "sum_list (map blockCount (processSlide [] sl)) + leadingBlocks sl = blockCount sl"
proof -
  let ?cs = "contentOf sl"
  let ?bs = "sectionBoundaries ?cs"
  have sorted: "sorted_wrt (<) (map fst ?bs)"
    by (simp add: sectionBoundaries_def sectionBoundariesFrom_sorted)
  have range: "\<forall>b \<in> set ?bs. fst b < length ?cs"
    using sectionBoundariesFrom_range [of _ _ 0 ?cs] by (fastforce simp: sectionBoundaries_def)
  show ?thesis
  proof (cases "length ?bs > 1 \<and> length ?cs > MAX_ITEMS_PER_SLIDE")
    case True
    then have ne: "?bs \<noteq> []" by auto
    have meq: "map (blockCount \<circ> sectionSlide sl ?cs ?bs) [0 ..< length ?bs]
          = map (\<lambda>i. (if i < length ?bs - 1 then fst (?bs ! (i + 1)) else length ?cs) - fst (?bs ! i))
              [0 ..< length ?bs]"
      by (auto simp: sectionSlide_blocks [OF _ sorted range])
    have "sum_list (map blockCount (map (sectionSlide sl ?cs ?bs) [0 ..< length ?bs]))
               = length ?cs - fst (?bs ! 0)"
      by (simp only: map_map meq telescope [OF ne sorted range])
    moreover have "fst (?bs ! 0) < length ?cs" using range ne by simp
    ultimately show ?thesis
      using True by (simp add: processSlide_def leadingBlocks_def blockCount_def Let_def)
  next
    case False
    then show ?thesis
      by (auto simp: processSlide_def leadingBlocks_def Let_def slice_def blockCount_def [of sl])
  qed
qed

lemma run_blocks:
  assumes "\<forall>sl\<in>set run. isSystemRequirements sl"
  shows "sum_list (map blockCount (aggregateSlides run))
           + sum_list (map leadingBlocks (filter isNonTrivial run))
         = sum_list (map blockCount (filter isNonTrivial run))"
proof -
  have agg: "aggregateSlides run = concat (map (processSlide []) (filter isNonTrivial run))"
    using aggRun_all [OF assms, of "[]"] by (simp add: aggregateSlides_eq flushRun_def)
  have "\<And>xs :: 'a slide_scheme list.
          sum_list (map blockCount (concat (map (processSlide []) xs))) + sum_list (map leadingBlocks xs)
          = sum_list (map blockCount xs)"
  proof -
    fix xs :: "'a slide_scheme list"
    show "sum_list (map blockCount (concat (map (processSlide []) xs))) + sum_list (map leadingBlocks xs)
          = sum_list (map blockCount xs)"
    proof (induction xs)
      case Nil
      show ?case by simp
    next
      case (Cons x xs)
      show ?case using Cons.IH processSlide_blocks [of x] by simp
    qed
  qed
  then show ?thesis by (simp add: agg)
qed

lemma run_blocks_conserved:
  assumes "\<forall>sl\<in>set run. isSystemRequirements sl"
    and "\<forall>sl\<in>set run. leadingBlocks sl = 0"
  shows "sum_list (map blockCount (aggregateSlides run))
         = sum_list (map blockCount (filter isNonTrivial run))"
proof -
  have "sum_list (map leadingBlocks (filter isNonTrivial run)) = 0"
    using assms(2) by (induction run) auto
  with run_blocks [OF assms(1)] show ?thesis by simp
qed

text \<open>
  C1 at a slide that the filter retains, with 11 content blocks of which the first stands in
  front of the first section header: the two slides derived from it carry 10 blocks, the
  block in front of \<^verbatim>\<open>Network\<close> is in neither.
\<close>

theorem aggregateSlides_drops_leading_blocks:
  "isSystemRequirements preambleSlide
   \<and> filter isNonTrivial [preambleSlide] = [preambleSlide]
   \<and> blockCount preambleSlide = 11
   \<and> sectionBoundaries (contentOf preambleSlide) = [(1, ''Network''), (6, ''Camera'')]
   \<and> map blockCount (aggregateSlides [preambleSlide]) = [5, 5]
   \<and> sum_list (map blockCount (aggregateSlides [preambleSlide])) = 10"
  by code_simp


section \<open>Properties of the fetcher\<close>

subsection \<open>The redirect budget of \<^verbatim>\<open>downloadFileDirect\<close>\<close>

lemma downloadFileDirect_requests:
  "length (requests (snd (downloadFileDirect E url outputPath follow n w))) \<le> length (requests w) + n"
proof (induction n arbitrary: url follow w)
  case 0
  show ?case by (simp add: throw_def)
next
  case (Suc n)
  have step: "\<And>u f. length (requests (snd (downloadFileDirect E u outputPath f n
                 ((tick w)\<lparr>requests := requests w @ [url]\<rparr>)))) \<le> length (requests w) + Suc n"
  proof -
    fix u f
    from Suc.IH [of u f "(tick w)\<lparr>requests := requests w @ [url]\<rparr>"]
    show "length (requests (snd (downloadFileDirect E u outputPath f n
                 ((tick w)\<lparr>requests := requests w @ [url]\<rparr>)))) \<le> length (requests w) + Suc n"
      by (simp add: tick_def)
  qed
  show ?case
    using step
    by (auto simp: bind_def httpRequest_def throw_def crash_def ret_def redirectUrl_def
        saveResponse_def pipeToFile_def tick_def split: httpReply.splits option.splits)
qed

text \<open>
  What a redirect response does to a call with budget left: the call is answered by the
  same call, with the budget one less, on the \<^verbatim>\<open>Location\<close> header itself when the header
  starts with \<^verbatim>\<open>http\<close>, and else on the URL that \<^verbatim>\<open>new URL\<close> resolves it to; when \<^verbatim>\<open>new URL\<close>
  throws, the exception is uncaught.
\<close>

lemma downloadFileDirect_redirect_step:
  assumes "httpGet E (clock w) url = Response st (Some loc) ct body"
    and "300 \<le> st" and "st < 400" and "loc \<noteq> []"
  shows "startsWith loc ''http'' \<longrightarrow>
           downloadFileDirect E url outputPath True (Suc n) w
           = downloadFileDirect E loc outputPath True n ((tick w)\<lparr>requests := requests w @ [url]\<rparr>)"
    and "\<not> startsWith loc ''http'' \<and> resolveUrl E loc url = Some target \<longrightarrow>
           downloadFileDirect E url outputPath True (Suc n) w
           = downloadFileDirect E target outputPath True n ((tick w)\<lparr>requests := requests w @ [url]\<rparr>)"
    and "\<not> startsWith loc ''http'' \<and> resolveUrl E loc url = None \<longrightarrow>
           downloadFileDirect E url outputPath True (Suc n) w
           = (Crashed (OtherError ''Invalid URL''), (tick w)\<lparr>requests := requests w @ [url]\<rparr>)"
  using assms by (simp_all add: bind_def httpRequest_def redirectUrl_def crash_def ret_def)

lemma downloadFileDirect_loop:
  assumes "\<forall>k u. \<exists>st loc ct body. httpGet E k u = Response st (Some loc) ct body
                    \<and> 300 \<le> st \<and> st < 400 \<and> loc \<noteq> []
                    \<and> (startsWith loc ''http'' \<or> resolveUrl E loc u \<noteq> None)"
  shows "fst (downloadFileDirect E url outputPath True n w) = Threw TooManyRedirects"
proof (induction n arbitrary: url w)
  case 0
  show ?case by (simp add: throw_def)
next
  case (Suc n)
  from assms obtain st loc ct body where
    r: "httpGet E (clock w) url = Response st (Some loc) ct body" "300 \<le> st" "st < 400" "loc \<noteq> []"
       "startsWith loc ''http'' \<or> resolveUrl E loc url \<noteq> None"
    by blast
  show ?case
    using r Suc.IH by (auto simp: bind_def httpRequest_def redirectUrl_def ret_def)
qed

text \<open>
  The budget: with none left the call rejects with \<^verbatim>\<open>Too many redirects\<close> and sends no
  request; started with the default budget of 5 it sends at most 5 requests; and against a
  server that only ever redirects, to URLs that can be retried, it ends in the rejection
  instead of looping.
\<close>

lemma downloadFileDirect_redirect_budget:
  "downloadFileDirect E url outputPath follow 0 w = (Threw TooManyRedirects, w)
   \<and> length (requests (snd (downloadFileDirect E url outputPath follow defaultMaxRedirects w)))
        \<le> length (requests w) + 5
   \<and> ((\<forall>k u. \<exists>st loc ct body. httpGet E k u = Response st (Some loc) ct body
                    \<and> 300 \<le> st \<and> st < 400 \<and> loc \<noteq> []
                    \<and> (startsWith loc ''http'' \<or> resolveUrl E loc u \<noteq> None))
        \<longrightarrow> fst (downloadFileDirect E url outputPath True defaultMaxRedirects w) = Threw TooManyRedirects)"
proof -
  have a: "downloadFileDirect E url outputPath follow 0 w = (Threw TooManyRedirects, w)"
    by (simp add: throw_def)
  have c: "length (requests (snd (downloadFileDirect E url outputPath follow defaultMaxRedirects w)))
        \<le> length (requests w) + 5"
    using downloadFileDirect_requests [of E url outputPath follow defaultMaxRedirects w]
    by (simp add: defaultMaxRedirects_def)
  show ?thesis using a c downloadFileDirect_loop by blast
qed

lemma loopEnv_redirects:
  "\<forall>k u. \<exists>st loc ct body. httpGet loopEnv k u = Response st (Some loc) ct body
                    \<and> 300 \<le> st \<and> st < 400 \<and> loc \<noteq> []
                    \<and> (startsWith loc ''http'' \<or> resolveUrl loopEnv loc u \<noteq> None)"
  by (simp add: loopEnv_def idleEnv_def startsWith_def)

lemma downloadFileDirect_loopEnv:
  "fst (downloadFileDirect loopEnv ''http://a.example/clip.mp4'' ''clip.mp4'' True
          defaultMaxRedirects startWorld) = Threw TooManyRedirects"
  using downloadFileDirect_redirect_budget
          [of loopEnv "''http://a.example/clip.mp4''" "''clip.mp4''" True startWorld]
        loopEnv_redirects
  by blast

lemma downloadFileDirect_redirectOnceEnv:
  "fst (downloadFileDirect redirectOnceEnv ''http://a.example/clip.mp4'' ''clip.mp4'' True
          defaultMaxRedirects startWorld) = Ret ''clip.mp4''
   \<and> requests (snd (downloadFileDirect redirectOnceEnv ''http://a.example/clip.mp4'' ''clip.mp4'' True
          defaultMaxRedirects startWorld))
     = [''http://a.example/clip.mp4'', ''http://b.example/clip.mp4'']"
  by code_simp

text \<open>
  A \<^verbatim>\<open>Location\<close> header that \<^verbatim>\<open>new URL\<close> refuses is an uncaught exception, also for
  \<^verbatim>\<open>downloadFile\<close>, whose \<^verbatim>\<open>try\<close> blocks do not enclose the response callback.
\<close>

lemma downloadFileDirect_malformed_location:
  assumes "httpGet E (clock w) url = Response st (Some loc) ct body"
    and "300 \<le> st" and "st < 400" and "loc \<noteq> []"
    and "\<not> startsWith loc ''http''" and "resolveUrl E loc url = None"
  shows "fst (downloadFileDirect E url outputPath True defaultMaxRedirects w)
           = Crashed (OtherError ''Invalid URL'')"
  using assms
  by (simp add: defaultMaxRedirects_def numeral_eq_Suc bind_def httpRequest_def redirectUrl_def
      crash_def)

subsection \<open>A relative \<^verbatim>\<open>Location\<close> that starts with \<^verbatim>\<open>http\<close>\<close>

text \<open>
  C9 at a redirect from \<^verbatim>\<open>http://a.example/videos/clip\<close> whose \<^verbatim>\<open>Location\<close> header is the
  relative reference \<^verbatim>\<open>httpdocs/clip.mp4\<close>. The URL parser resolves the header to
  \<^verbatim>\<open>http://a.example/videos/httpdocs/clip.mp4\<close>, where the file is served, but line 142 takes
  the header for an absolute URL because it starts with \<^verbatim>\<open>http\<close>: the retry goes to
  \<^verbatim>\<open>httpdocs/clip.mp4\<close> as it stands, which is no URL, and the strategy fails. The budget
  part of the claim holds (\<open>downloadFileDirect_redirect_budget\<close>).
\<close>

theorem downloadFileDirect_keeps_relative_location:
  "resolveUrl relativeRedirectEnv ''httpdocs/clip.mp4'' ''http://a.example/videos/clip''
     = Some ''http://a.example/videos/httpdocs/clip.mp4''
   \<and> requests (snd (downloadFileDirect relativeRedirectEnv ''http://a.example/videos/clip''
                      ''clip.mp4'' True defaultMaxRedirects startWorld))
     = [''http://a.example/videos/clip'', ''httpdocs/clip.mp4'']
   \<and> fst (downloadFileDirect relativeRedirectEnv ''http://a.example/videos/clip''
            ''clip.mp4'' True defaultMaxRedirects startWorld)
     = Threw (OtherError ''Invalid URL'')
   \<and> fst (downloadFileDirect relativeRedirectEnv ''http://a.example/videos/httpdocs/clip.mp4''
            ''clip.mp4'' True 4 startWorld)
     = Ret ''clip.mp4''"
  by code_simp

subsection \<open>\<^verbatim>\<open>downloadFile\<close> throws nothing\<close>

lemma downloadFile_never_throws:
  "fst (downloadFile E fuel url outputPath isVideo w) \<noteq> Threw e"
  by (auto simp: downloadFile_def orNull_def tryCatch_def bind_def ret_def
      split: prod.splits outcome.splits flow.splits option.splits)

lemma downloadGoogleDriveFile_never_throws:
  "fst (downloadGoogleDriveFile E fuel fileId outputPath isVideo w) \<noteq> Threw e"
  by (auto simp: downloadGoogleDriveFile_def orNull_def tryCatch_def bind_def ret_def Let_def
      split: prod.splits outcome.splits flow.splits option.splits)

lemma fetchResponse_loop:
  "fst (fetchResponse loopEnv fuel url w) = Hang"
proof (induction fuel arbitrary: url w)
  case 0
  show ?case by simp
next
  case (Suc fuel)
  show ?case
    using Suc.IH
    by (simp add: bind_def httpRequest_def loopEnv_def idleEnv_def redirectUrl_def startsWith_def
        ret_def)
qed



subsection \<open>A rejected file stays on disk\<close>

text \<open>
  C3 at a plain URL whose server answers with an HTML page while a video is expected: the
  page is written to the destination, the validator rejects it, and \<^verbatim>\<open>downloadFile\<close> returns
  \<^verbatim>\<open>null\<close> with the page still at the destination. Lines 482 to 485 have no \<^verbatim>\<open>unlink\<close>, and
  the browser fallback is only reached from the \<^verbatim>\<open>catch\<close>.
\<close>

theorem downloadFile_leaves_rejected_file:
  "fst (downloadFile htmlServerEnv fuel ''http://cdn.example/clip.mp4'' ''assets/module_3.mp4'' True
          startWorld) = Ret None
   \<and> disk (snd (downloadFile htmlServerEnv fuel ''http://cdn.example/clip.mp4'' ''assets/module_3.mp4''
                   True startWorld))
        ''assets/module_3.mp4'' = Some htmlFile
   \<and> validateFileType [''assets/module_3.mp4'' \<mapsto> htmlFile] ''assets/module_3.mp4'' ''video'' = False"
  by code_simp

text \<open>
  The inline view endpoint (lines 338 to 350) accepts any file of more than 1000 bytes
  without asking the validator.
\<close>

lemma defaultMaxRedirects_Suc: "defaultMaxRedirects = Suc 4"
  by (simp add: defaultMaxRedirects_def)

lemma downloadFileDirect_default:
  "downloadFileDirect E url outputPath follow defaultMaxRedirects =
     bind (httpRequest E url) (\<lambda>reply.
       case reply of
         NoResponse e \<Rightarrow> throw e
       | Response statusCode location contentType body \<Rightarrow>
           (case location of
              Some loc \<Rightarrow>
                if follow \<and> 300 \<le> statusCode \<and> statusCode < 400 \<and> loc \<noteq> []
                then bind (redirectUrl E loc url) (\<lambda>target.
                       downloadFileDirect E target outputPath True 4)
                else saveResponse E outputPath statusCode body
            | None \<Rightarrow> saveResponse E outputPath statusCode body))"
  by (simp only: defaultMaxRedirects_Suc downloadFileDirect.simps)

lemma viewAttempt_unvalidated:
  assumes "httpGet E (clock w) (''https://drive.google.com/uc?export=view&id='' @ fileId)
             = Response 200 None contentType body"
    and "length body > 1000" and "\<not> writeFails E (clock w + 1) outputPath"
  shows "fst (viewAttempt E fileId outputPath w) = Ret (Return (Some outputPath))
         \<and> disk (snd (viewAttempt E fileId outputPath w)) outputPath = Some body"
  using assms
  by (simp add: viewAttempt_def tryCatch_def bind_def httpRequest_def saveResponse_def
      pipeToFile_def statSize_def ret_def tick_def downloadFileDirect_default)


subsection \<open>A redirect loop behind a share link\<close>

lemma bind_Hang: "fst (m w) = Hang \<Longrightarrow> fst (bind m k w) = Hang"
  by (cases "m w") (simp add: bind_def)

lemma tryCatch_Hang: "fst (m w) = Hang \<Longrightarrow> fst (tryCatch m h w) = Hang"
  by (cases "m w") (simp add: tryCatch_def)

lemma orNull_Hang: "fst (m w) = Hang \<Longrightarrow> fst (orNull m w) = Hang"
  by (simp add: orNull_def bind_Hang)

lemma andThen_Hang: "fst (m w) = Hang \<Longrightarrow> fst (andThen m k w) = Hang"
  by (simp add: andThen_def bind_Hang)

lemma andThen_Next: "fst (m w) = Ret (Next x) \<Longrightarrow> andThen m k w = k x (snd (m w))"
  by (cases "m w") (simp add: andThen_def bind_def)

lemma driveUrl_id:
  "driveUrl \<noteq> [] \<and> trim driveUrl \<noteq> []
   \<and> extractGoogleDriveId loopEnv driveUrl = Some ''1AbC_dEf-123''"
  by code_simp

lemma loop_step1:
  "fst (directAttempt loopEnv ''https://drive.google.com/uc?export=download&id=1AbC_dEf-123''
          ''assets/module_3.mp4'' True startWorld) = Ret (Next ())"
  by code_simp

lemma loop_requests:
  "requests (snd (directAttempt loopEnv ''https://drive.google.com/uc?export=download&id=1AbC_dEf-123''
          ''assets/module_3.mp4'' True startWorld)) =
   [''https://drive.google.com/uc?export=download&id=1AbC_dEf-123'',
    ''https://proxy.example/login'', ''https://proxy.example/login'',
    ''https://proxy.example/login'', ''https://proxy.example/login'']"
  by code_simp

text \<open>
  C4 at a share link when every request is answered by a redirect: the first step gives
  up after 5 requests, the second step is \<^verbatim>\<open>fetchResponse\<close>, which follows the redirects
  without a budget, so for every amount of fuel \<^verbatim>\<open>downloadFile\<close> has not returned.
\<close>

theorem downloadFile_redirect_loop_hangs:
  "fst (downloadFile loopEnv fuel driveUrl ''assets/module_3.mp4'' True startWorld) = Hang"
proof -
  let ?dl = "''https://drive.google.com/uc?export=download&id=1AbC_dEf-123''"
  let ?out = "''assets/module_3.mp4''"
  let ?second = "\<lambda>u :: unit. tryCatch
                   (bind (fetchResponse loopEnv fuel ?dl)
                      (afterFetch loopEnv ''1AbC_dEf-123'' ?out True))
                   (\<lambda>e. ret (Next ()))"
  have "fst (?second () (snd (directAttempt loopEnv ?dl ?out True startWorld))) = Hang"
    by (intro tryCatch_Hang bind_Hang fetchResponse_loop)
  then have "fst (andThen (directAttempt loopEnv ?dl ?out True) ?second startWorld) = Hang"
    using loop_step1
    by (simp add: andThen_Next [of "directAttempt loopEnv ?dl ?out True" startWorld "()" ?second])
  then have "fst (downloadGoogleDriveFile loopEnv fuel ''1AbC_dEf-123'' ?out True startWorld) = Hang"
    unfolding downloadGoogleDriveFile_def Let_def
    by (intro orNull_Hang tryCatch_Hang) simp
  then have "fst (downloadShared loopEnv fuel ''1AbC_dEf-123'' ?out True startWorld) = Hang"
    unfolding downloadShared_def by (rule bind_Hang)
  then show ?thesis
    using driveUrl_id
    by (simp add: downloadFile_def orNull_Hang tryCatch_Hang)
qed



section \<open>Properties of the renderer\<close>

text \<open>
  The fall-back of \<^verbatim>\<open>renderMermaidDiagram\<close> when every call of the engine throws. The
  rasteriser is asked once, for the placeholder SVG, after the write of the temporary file
  (and, when that write succeeds, after the call of the engine); its answer behind the PNG
  signature is the file at the output path. The engine has been called once, with the
  command of line 725, unless the temporary file could not be written.
\<close>

lemma renderMermaidDiagram_placeholder:
  assumes engine: "\<forall>n command. \<exists>e. mmdc E n command = Inl e"
    and raster: "sharpPng E (if writeFails E (clock w) (replaceFirst ''.png'' ''.mmd'' outputPath)
                             then clock w + 1 else clock w + 2) placeholderSvg = Inr chunks"
  shows "fst (renderMermaidDiagram E mermaidCode outputPath w) = Ret (Some outputPath)"
    and "disk (snd (renderMermaidDiagram E mermaidCode outputPath w)) outputPath
           = Some (pngHeader @ chunks)"
    and "commands (snd (renderMermaidDiagram E mermaidCode outputPath w))
           = (if writeFails E (clock w) (replaceFirst ''.png'' ''.mmd'' outputPath) then commands w
              else commands w @ [mmdcCommand (replaceFirst ''.png'' ''.mmd'' outputPath) outputPath])"
proof -
  let ?tmp = "replaceFirst ''.png'' ''.mmd'' outputPath"
  let ?cmd = "mmdcCommand ?tmp outputPath"
  let ?r = "renderMermaidDiagram E mermaidCode outputPath w"
  have "fst ?r = Ret (Some outputPath)
        \<and> disk (snd ?r) outputPath = Some (pngHeader @ chunks)
        \<and> commands (snd ?r) = (if writeFails E (clock w) ?tmp then commands w
                                else commands w @ [?cmd])"
  proof (cases "writeFails E (clock w) ?tmp")
    case True
    with raster have "sharpPng E (clock w + 1) placeholderSvg = Inr chunks"
      by simp
    with True show ?thesis
      by (simp add: renderMermaidDiagram_def tryCatch_def bind_def writeFile_def sharpToFile_def
          ret_def tick_def Let_def)
  next
    case False
    from engine obtain e where e: "mmdc E (clock w + 1) ?cmd = Inl e" by blast
    from False raster have "sharpPng E (clock w + 2) placeholderSvg = Inr chunks"
      by simp
    with False e show ?thesis
      by (simp add: renderMermaidDiagram_def tryCatch_def bind_def writeFile_def execSync_def
          sharpToFile_def ret_def tick_def Let_def)
  qed
  then show "fst ?r = Ret (Some outputPath)"
    and "disk (snd ?r) outputPath = Some (pngHeader @ chunks)"
    and "commands (snd ?r) = (if writeFails E (clock w) ?tmp then commands w
                              else commands w @ [?cmd])"
    by simp_all
qed

lemma renderSlideDiagram_skip:
  assumes "diagram sl = Some d"
    and "trim (case diagramCode d of None \<Rightarrow> [] | Some c \<Rightarrow> c) = []"
  shows "renderSlideDiagram E assetsDir i sl assetMap w = (Ret assetMap, w)"
  using assms by (simp add: renderSlideDiagram_def ret_def Let_def)

lemma placeholderSvg_labelled:
  "includesSub placeholderSvg ''Mermaid Diagram''
   \<and> includesSub placeholderSvg ''Install mermaid-cli''"
  by code_simp

lemma renderSlideDiagram_placeholder:
  assumes "type sl = Some ''diagram''" and "diagram sl = Some d"
    and "diagramType d = Some ''mermaid''" and "diagramCode d = Some c" and "trim c \<noteq> []"
    and engine: "\<forall>n command. \<exists>e. mmdc E n command = Inl e"
    and raster: "sharpPng E
                   (if writeFails E (clock w)
                         (replaceFirst ''.png'' ''.mmd''
                            (pathJoin assetsDir (''diagram_'' @ showNat i @ ''.png'')))
                    then clock w + 1 else clock w + 2) placeholderSvg = Inr chunks"
  shows "fst (renderSlideDiagram E assetsDir i sl assetMap w)
           = Ret (assetMap(i \<mapsto> \<lparr>assetType = ''diagram'',
                   assetPath = Some (pathJoin assetsDir (''diagram_'' @ showNat i @ ''.png''))\<rparr>))
         \<and> disk (snd (renderSlideDiagram E assetsDir i sl assetMap w))
                 (pathJoin assetsDir (''diagram_'' @ showNat i @ ''.png''))
               = Some (pngHeader @ chunks)"
proof -
  let ?path = "pathJoin assetsDir (''diagram_'' @ showNat i @ ''.png'')"
  obtain r w' where rw: "renderMermaidDiagram E c ?path w = (r, w')"
    by (cases "renderMermaidDiagram E c ?path w")
  from renderMermaidDiagram_placeholder(1,2) [OF engine raster, of c] rw
  have "r = Ret (Some ?path)" and "disk w' ?path = Some (pngHeader @ chunks)"
    by simp_all
  then show ?thesis
    using assms(1-5) rw by (simp add: renderSlideDiagram_def bind_def ret_def Let_def)
qed

text \<open>
  C6. A diagram whose source is empty or white space only is skipped by the loop of
  \<^verbatim>\<open>generatePresentation\<close>: the round returns normally and leaves the world as it was, so no
  command is run, no file is written and the slide gets no asset. When the engine is
  unavailable (every \<^verbatim>\<open>execSync\<close> throws) and the rasteriser answers \<open>chunks\<close> for the
  placeholder SVG, \<^verbatim>\<open>renderMermaidDiagram\<close> returns the output path, the file at that path is
  the PNG signature followed by \<open>chunks\<close>, which is not empty, and the engine has been tried
  once with the command of line 725 (not at all when the temporary file could not be
  written); for a slide with a source that is not blank the loop records that path, where
  the same file is. The SVG that the rasteriser is given carries the labels
  \<^verbatim>\<open>Mermaid Diagram\<close> and \<^verbatim>\<open>Install mermaid-cli\<close>.
\<close>

theorem render_skips_blank_and_falls_back:
  "(diagram sl = Some d \<and> trim (case diagramCode d of None \<Rightarrow> [] | Some c \<Rightarrow> c) = []
      \<longrightarrow> renderSlideDiagram E assetsDir i sl assetMap w = (Ret assetMap, w))
   \<and> ((\<forall>n command. \<exists>e. mmdc E n command = Inl e)
       \<and> sharpPng E (if writeFails E (clock w) (replaceFirst ''.png'' ''.mmd'' outputPath)
                      then clock w + 1 else clock w + 2) placeholderSvg = Inr chunks
      \<longrightarrow> fst (renderMermaidDiagram E mermaidCode outputPath w) = Ret (Some outputPath)
          \<and> disk (snd (renderMermaidDiagram E mermaidCode outputPath w)) outputPath
              = Some (pngHeader @ chunks)
          \<and> pngHeader @ chunks \<noteq> []
          \<and> commands (snd (renderMermaidDiagram E mermaidCode outputPath w))
              = (if writeFails E (clock w) (replaceFirst ''.png'' ''.mmd'' outputPath)
                 then commands w
                 else commands w
                      @ [mmdcCommand (replaceFirst ''.png'' ''.mmd'' outputPath) outputPath]))
   \<and> (type sl = Some ''diagram'' \<and> diagram sl = Some d \<and> diagramType d = Some ''mermaid''
       \<and> diagramCode d = Some c \<and> trim c \<noteq> []
       \<and> (\<forall>n command. \<exists>e. mmdc E n command = Inl e)
       \<and> sharpPng E
            (if writeFails E (clock w)
                  (replaceFirst ''.png'' ''.mmd''
                     (pathJoin assetsDir (''diagram_'' @ showNat i @ ''.png'')))
             then clock w + 1 else clock w + 2) placeholderSvg = Inr slideChunks
      \<longrightarrow> fst (renderSlideDiagram E assetsDir i sl assetMap w)
            = Ret (assetMap(i \<mapsto> \<lparr>assetType = ''diagram'',
                    assetPath = Some (pathJoin assetsDir (''diagram_'' @ showNat i @ ''.png''))\<rparr>))
          \<and> disk (snd (renderSlideDiagram E assetsDir i sl assetMap w))
                  (pathJoin assetsDir (''diagram_'' @ showNat i @ ''.png''))
                = Some (pngHeader @ slideChunks)
          \<and> pngHeader @ slideChunks \<noteq> [])
   \<and> includesSub placeholderSvg ''Mermaid Diagram''
   \<and> includesSub placeholderSvg ''Install mermaid-cli''"
proof -
  have png: "\<And>cs. pngHeader @ cs \<noteq> []"
    by (simp add: pngHeader_def)
  have a: "diagram sl = Some d \<and> trim (case diagramCode d of None \<Rightarrow> [] | Some c \<Rightarrow> c) = []
      \<longrightarrow> renderSlideDiagram E assetsDir i sl assetMap w = (Ret assetMap, w)"
    using renderSlideDiagram_skip by blast
  have b: "(\<forall>n command. \<exists>e. mmdc E n command = Inl e)
       \<and> sharpPng E (if writeFails E (clock w) (replaceFirst ''.png'' ''.mmd'' outputPath)
                      then clock w + 1 else clock w + 2) placeholderSvg = Inr chunks
      \<longrightarrow> fst (renderMermaidDiagram E mermaidCode outputPath w) = Ret (Some outputPath)
          \<and> disk (snd (renderMermaidDiagram E mermaidCode outputPath w)) outputPath
              = Some (pngHeader @ chunks)
          \<and> pngHeader @ chunks \<noteq> []
          \<and> commands (snd (renderMermaidDiagram E mermaidCode outputPath w))
              = (if writeFails E (clock w) (replaceFirst ''.png'' ''.mmd'' outputPath)
                 then commands w
                 else commands w
                      @ [mmdcCommand (replaceFirst ''.png'' ''.mmd'' outputPath) outputPath])"
    using renderMermaidDiagram_placeholder [of E w outputPath chunks mermaidCode] png by blast
  have c: "type sl = Some ''diagram'' \<and> diagram sl = Some d \<and> diagramType d = Some ''mermaid''
       \<and> diagramCode d = Some c \<and> trim c \<noteq> []
       \<and> (\<forall>n command. \<exists>e. mmdc E n command = Inl e)
       \<and> sharpPng E
            (if writeFails E (clock w)
                  (replaceFirst ''.png'' ''.mmd''
                     (pathJoin assetsDir (''diagram_'' @ showNat i @ ''.png'')))
             then clock w + 1 else clock w + 2) placeholderSvg = Inr slideChunks
      \<longrightarrow> fst (renderSlideDiagram E assetsDir i sl assetMap w)
            = Ret (assetMap(i \<mapsto> \<lparr>assetType = ''diagram'',
                    assetPath = Some (pathJoin assetsDir (''diagram_'' @ showNat i @ ''.png''))\<rparr>))
          \<and> disk (snd (renderSlideDiagram E assetsDir i sl assetMap w))
                  (pathJoin assetsDir (''diagram_'' @ showNat i @ ''.png''))
                = Some (pngHeader @ slideChunks)
          \<and> pngHeader @ slideChunks \<noteq> []"
    using renderSlideDiagram_placeholder [of sl d c E w assetsDir i slideChunks assetMap] png
    by blast
  show ?thesis using a b c placeholderSvg_labelled by blast
qed

lemma idleEnv_unavailable:
  "(\<forall>n command. \<exists>e. mmdc idleEnv n command = Inl e)
   \<and> (\<forall>n p. \<not> writeFails idleEnv n p)
   \<and> (\<forall>n. sharpPng idleEnv n placeholderSvg = Inr [0x00, 0x00, 0x00, 0x0D])"
  by (simp add: idleEnv_def)

lemma diagramSlide_facts:
  "diagram blankDiagramSlide
     = Some \<lparr>diagramType = Some ''mermaid'', diagramCode = Some [CHR 0x20, CHR 0x0A, CHR 0x09]\<rparr>
   \<and> trim [CHR 0x20, CHR 0x0A, CHR 0x09] = []
   \<and> type flowDiagramSlide = Some ''diagram''
   \<and> diagram flowDiagramSlide
     = Some \<lparr>diagramType = Some ''mermaid'', diagramCode = Some ''graph TD; Camera-->Server''\<rparr>
   \<and> trim ''graph TD; Camera-->Server'' \<noteq> []"
  by code_simp

lemma diagramPath_facts:
  "pathJoin ''out/assets'' (''diagram_'' @ showNat 3 @ ''.png'') = ''out/assets/diagram_3.png''
   \<and> replaceFirst ''.png'' ''.mmd'' ''out/assets/diagram_3.png'' = ''out/assets/diagram_3.mmd''"
  by code_simp

theorem render_skips_blank_and_falls_back_witness:
  "diagram blankDiagramSlide
     = Some \<lparr>diagramType = Some ''mermaid'', diagramCode = Some [CHR 0x20, CHR 0x0A, CHR 0x09]\<rparr>
   \<and> trim [CHR 0x20, CHR 0x0A, CHR 0x09] = []
   \<and> renderSlideDiagram idleEnv ''out/assets'' 3 blankDiagramSlide Map.empty startWorld
     = (Ret Map.empty, startWorld)
   \<and> sharpPng idleEnv 2 placeholderSvg = Inr [0x00, 0x00, 0x00, 0x0D]
   \<and> fst (renderMermaidDiagram idleEnv ''graph TD; Camera-->Server'' ''out/assets/diagram_3.png''
            startWorld) = Ret (Some ''out/assets/diagram_3.png'')
   \<and> disk (snd (renderMermaidDiagram idleEnv ''graph TD; Camera-->Server''
                   ''out/assets/diagram_3.png'' startWorld)) ''out/assets/diagram_3.png''
     = Some (pngHeader @ [0x00, 0x00, 0x00, 0x0D])
   \<and> commands (snd (renderMermaidDiagram idleEnv ''graph TD; Camera-->Server''
                       ''out/assets/diagram_3.png'' startWorld))
     = [mmdcCommand ''out/assets/diagram_3.mmd'' ''out/assets/diagram_3.png'']
   \<and> fst (renderSlideDiagram idleEnv ''out/assets'' 3 flowDiagramSlide Map.empty startWorld)
     = Ret [3 \<mapsto> \<lparr>assetType = ''diagram'', assetPath = Some ''out/assets/diagram_3.png''\<rparr>]
   \<and> disk (snd (renderSlideDiagram idleEnv ''out/assets'' 3 flowDiagramSlide Map.empty startWorld))
        ''out/assets/diagram_3.png''
     = Some (pngHeader @ [0x00, 0x00, 0x00, 0x0D])"
proof -
  note f = diagramSlide_facts
  note u = idleEnv_unavailable
  note q = diagramPath_facts
  have s: "clock startWorld = 0" "commands startWorld = []"
    by (simp_all add: startWorld_def)
  note blank = render_skips_blank_and_falls_back
         [where sl = blankDiagramSlide
            and d = "\<lparr>diagramType = Some ''mermaid'',
                      diagramCode = Some [CHR 0x20, CHR 0x0A, CHR 0x09]\<rparr>"
            and c = "''graph TD; Camera-->Server''"
            and E = idleEnv and assetsDir = "''out/assets''" and i = 3 and assetMap = Map.empty
            and w = startWorld and mermaidCode = "''graph TD; Camera-->Server''"
            and outputPath = "''out/assets/diagram_3.png''"
            and chunks = "[0x00, 0x00, 0x00, 0x0D]"
            and slideChunks = "[0x00, 0x00, 0x00, 0x0D]"]
  note flow = render_skips_blank_and_falls_back
         [where sl = flowDiagramSlide
            and d = "\<lparr>diagramType = Some ''mermaid'',
                      diagramCode = Some ''graph TD; Camera-->Server''\<rparr>"
            and c = "''graph TD; Camera-->Server''"
            and E = idleEnv and assetsDir = "''out/assets''" and i = 3 and assetMap = Map.empty
            and w = startWorld and mermaidCode = "''graph TD; Camera-->Server''"
            and outputPath = "''out/assets/diagram_3.png''"
            and chunks = "[0x00, 0x00, 0x00, 0x0D]"
            and slideChunks = "[0x00, 0x00, 0x00, 0x0D]"]
  have r: "sharpPng idleEnv 2 placeholderSvg = Inr [0x00, 0x00, 0x00, 0x0D]"
    using u by blast
  have r': "sharpPng idleEnv (Suc (Suc 0)) placeholderSvg = Inr [0x00, 0x00, 0x00, 0x0D]"
    using u by blast
  have n: "\<not> writeFails idleEnv 0 ''out/assets/diagram_3.mmd''"
    using u by blast
  have e: "\<forall>n command. \<exists>e. mmdc idleEnv n command = Inl e"
    using u by blast
  have a: "renderSlideDiagram idleEnv ''out/assets'' 3 blankDiagramSlide Map.empty startWorld
     = (Ret Map.empty, startWorld)"
    using blank f by simp
  have b: "fst (renderMermaidDiagram idleEnv ''graph TD; Camera-->Server'' ''out/assets/diagram_3.png''
            startWorld) = Ret (Some ''out/assets/diagram_3.png'')
   \<and> disk (snd (renderMermaidDiagram idleEnv ''graph TD; Camera-->Server''
                   ''out/assets/diagram_3.png'' startWorld)) ''out/assets/diagram_3.png''
     = Some (pngHeader @ [0x00, 0x00, 0x00, 0x0D])
   \<and> commands (snd (renderMermaidDiagram idleEnv ''graph TD; Camera-->Server''
                       ''out/assets/diagram_3.png'' startWorld))
     = [mmdcCommand ''out/assets/diagram_3.mmd'' ''out/assets/diagram_3.png'']"
    using flow e r' n q s by simp
  have c: "fst (renderSlideDiagram idleEnv ''out/assets'' 3 flowDiagramSlide Map.empty startWorld)
     = Ret [3 \<mapsto> \<lparr>assetType = ''diagram'', assetPath = Some ''out/assets/diagram_3.png''\<rparr>]
   \<and> disk (snd (renderSlideDiagram idleEnv ''out/assets'' 3 flowDiagramSlide Map.empty startWorld))
        ''out/assets/diagram_3.png''
     = Some (pngHeader @ [0x00, 0x00, 0x00, 0x0D])"
    using flow f e r' n q s by simp
  show ?thesis using f a b c r by blast
qed


end
